theory Spec2Isabelle
  imports Complex_Main "HOL-Library.Multiset"
begin

section \<open>Numeric values\<close>

text \<open>
  The values held by a DataFrame column and produced by Python's \<^verbatim>\<open>float()\<close> are IEEE 754
  binary64 numbers (doubles). \<open>Fin x\<close> is the finite double that denotes the real number
  \<open>x\<close>, with \<open>Fin 0\<close> for \<^verbatim>\<open>+0.0\<close>; \<open>NegZero\<close> is \<^verbatim>\<open>-0.0\<close>; the two infinities and the
  not-a-number value are constructors of their own. A value \<open>Fin x\<close> whose \<open>x\<close> is not
  representable stands for no double; the operations below return values that are doubles.
\<close>

datatype fl = NaN | NegInf | NegZero | Fin real | PosInf

fun real_of :: "fl \<Rightarrow> real" where
  "real_of (Fin a) = a"
| "real_of _ = 0"

fun sign_neg :: "fl \<Rightarrow> bool" where
  "sign_neg NegInf = True"
| "sign_neg NegZero = True"
| "sign_neg (Fin a) = (a < 0)"
| "sign_neg _ = False"

definition is_zero :: "fl \<Rightarrow> bool" where
  "is_zero x = (x = NegZero \<or> x = Fin 0)"

definition is_inf :: "fl \<Rightarrow> bool" where
  "is_inf x = (x = PosInf \<or> x = NegInf)"

text \<open>The comparison operators of doubles: every comparison with NaN is false, except
  \<^verbatim>\<open>!=\<close>, which is true; the two zeros are equal.\<close>

fun flt :: "fl \<Rightarrow> fl \<Rightarrow> bool" where
  "flt NaN _ = False"
| "flt _ NaN = False"
| "flt NegInf NegInf = False"
| "flt NegInf _ = True"
| "flt _ NegInf = False"
| "flt PosInf _ = False"
| "flt _ PosInf = True"
| "flt a b = (real_of a < real_of b)"

fun feq :: "fl \<Rightarrow> fl \<Rightarrow> bool" where
  "feq NaN _ = False"
| "feq _ NaN = False"
| "feq PosInf b = (b = PosInf)"
| "feq NegInf b = (b = NegInf)"
| "feq _ PosInf = False"
| "feq _ NegInf = False"
| "feq a b = (real_of a = real_of b)"

definition fne :: "fl \<Rightarrow> fl \<Rightarrow> bool" where
  "fne a b = (\<not> feq a b)"

definition fle :: "fl \<Rightarrow> fl \<Rightarrow> bool" where
  "fle a b = (flt a b \<or> feq a b)"

definition fge :: "fl \<Rightarrow> fl \<Rightarrow> bool" where
  "fge a b = fle b a"

text \<open>
  Rounding of a real number to the nearest double, ties to the even significand.
  \<open>exponent64 a\<close> is, for \<open>a > 0\<close>, the exponent \<open>e\<close> with \<open>2 ^ e \<le> a < 2 ^ (e + 1)\<close>, kept
  between the least and the greatest exponent of a normal double; it is found by
  bisection of the exponent range. The doubles of that binade are the multiples of
  \<open>2 ^ (e - 52)\<close>. A magnitude that rounds to \<open>2 ^ 1024\<close> overflows to an infinity, one
  that rounds to 0 underflows to a zero of the sign of the number.
\<close>

fun binade :: "nat \<Rightarrow> int \<Rightarrow> int \<Rightarrow> real \<Rightarrow> int" where
  "binade 0 lo hi a = lo"
| "binade (Suc n) lo hi a =
     (let mid = (lo + hi) div 2
      in if 2 powi mid \<le> a then binade n mid hi a else binade n lo mid a)"

definition exponent64 :: "real \<Rightarrow> int" where
  "exponent64 a = binade 11 (- 1022) 1024 a"

definition round_half_even :: "real \<Rightarrow> int" where
  "round_half_even x =
     (let f = \<lfloor>x\<rfloor>; d = x - of_int f
      in if d < 1 / 2 then f else if 1 / 2 < d then f + 1 else if even f then f else f + 1)"

definition round_magnitude :: "real \<Rightarrow> real" where
  "round_magnitude a =
     (let ulp = 2 powi (exponent64 a - 52)
      in of_int (round_half_even (a / ulp)) * ulp)"

definition round64 :: "real \<Rightarrow> fl" where
  "round64 x =
     (if x = 0 then Fin 0
      else let y = round_magnitude \<bar>x\<bar>
           in if 2 ^ 1024 \<le> y then (if 0 < x then PosInf else NegInf)
              else if y = 0 then (if 0 < x then Fin 0 else NegZero)
              else Fin (if 0 < x then y else - y))"

text \<open>Subtraction and true division of doubles, as Python and numpy compute them: the
  exact result is rounded, no exception is raised, a zero divisor gives an infinity or
  NaN.\<close>

fun fsub :: "fl \<Rightarrow> fl \<Rightarrow> fl" where
  "fsub NaN _ = NaN"
| "fsub _ NaN = NaN"
| "fsub PosInf PosInf = NaN"
| "fsub NegInf NegInf = NaN"
| "fsub PosInf _ = PosInf"
| "fsub NegInf _ = NegInf"
| "fsub _ PosInf = NegInf"
| "fsub _ NegInf = PosInf"
| "fsub NegZero NegZero = Fin 0"
| "fsub NegZero (Fin b) = (if b = 0 then NegZero else round64 (- b))"
| "fsub (Fin a) NegZero = round64 a"
| "fsub (Fin a) (Fin b) = round64 (a - b)"

definition fdiv :: "fl \<Rightarrow> fl \<Rightarrow> fl" where
  "fdiv a b =
     (if a = NaN \<or> b = NaN then NaN
      else if is_inf a \<and> is_inf b then NaN
      else if is_zero a \<and> is_zero b then NaN
      else if is_inf a \<or> is_zero b then (if sign_neg a = sign_neg b then PosInf else NegInf)
      else if is_zero a \<or> is_inf b then (if sign_neg a = sign_neg b then Fin 0 else NegZero)
      else round64 (real_of a / real_of b))"

text \<open>\<^verbatim>\<open>Series.clip(lower, upper)\<close>, elementwise: values below \<open>lower\<close> become
  \<open>lower\<close>, values above \<open>upper\<close> become \<open>upper\<close>, NaN stays NaN.\<close>

definition clip :: "real \<Rightarrow> real \<Rightarrow> fl \<Rightarrow> fl" where
  "clip lower upper x =
     (if flt x (Fin lower) then Fin lower
      else if flt (Fin upper) x then Fin upper
      else x)"

text \<open>The null sentinel \<^verbatim>\<open>-999.25\<close>, exactly representable as a double.\<close>

definition null_value :: fl where
  "null_value = Fin (- 999.25)"

section \<open>Exceptions\<close>

text \<open>The exceptions the modelled code can raise, with the part of the message that
  identifies the cause: the token \<^verbatim>\<open>float()\<close> rejected, the two column counts the
  DataFrame constructor compares, the missing column label.\<close>

datatype value_error = NotAFloat string | ColumnsMismatch nat nat

datatype error = TypeError | ValueError value_error | IndexError | KeyError string

definition raises :: "error + 'a \<Rightarrow> bool" where
  "raises r = (case r of Inl _ \<Rightarrow> True | Inr _ \<Rightarrow> False)"

section \<open>String operations\<close>

text \<open>
  A character is a Unicode code point below 256, a string the list of its characters.
  \<open>is_space\<close> is \<^verbatim>\<open>str.isspace\<close>, the test that \<^verbatim>\<open>str.strip()\<close> and \<^verbatim>\<open>str.split()\<close>
  apply: below 256 the whitespace characters are tab, line feed, vertical tab, form feed,
  carriage return, the four separators \<^verbatim>\<open>0x1c\<close> to \<^verbatim>\<open>0x1f\<close>, space, next line
  (\<^verbatim>\<open>0x85\<close>) and no-break space (\<^verbatim>\<open>0xa0\<close>).
\<close>

definition is_space :: "char \<Rightarrow> bool" where
  "is_space c = (c \<in> set [CHR 0x09, CHR 0x0A, CHR 0x0B, CHR 0x0C, CHR 0x0D,
                           CHR 0x1C, CHR 0x1D, CHR 0x1E, CHR 0x1F, CHR '' '',
                           CHR 0x85, CHR 0xA0])"

definition strip :: "string \<Rightarrow> string" where
  "strip s = rev (dropWhile is_space (rev (dropWhile is_space s)))"

definition startswith :: "string \<Rightarrow> string \<Rightarrow> bool" where
  "startswith s p = (take (length p) s = p)"

text \<open>\<^verbatim>\<open>str.split()\<close> without argument: the maximal runs of non-whitespace characters,
  in order. \<open>split_acc cur s\<close> scans \<open>s\<close> with the current token \<open>cur\<close> held reversed.\<close>

fun split_acc :: "string \<Rightarrow> string \<Rightarrow> string list" where
  "split_acc cur [] = (if cur = [] then [] else [rev cur])"
| "split_acc cur (c # cs) =
     (if is_space c then (if cur = [] then split_acc [] cs else rev cur # split_acc [] cs)
      else split_acc (c # cur) cs)"

definition str_split :: "string \<Rightarrow> string list" where
  "str_split s = split_acc [] s"

text \<open>\<^verbatim>\<open>s.split('.')[0]\<close>: the part of \<open>s\<close> before its first dot, all of \<open>s\<close> when it
  has none.\<close>

definition split_dot_first :: "string \<Rightarrow> string" where
  "split_dot_first s = takeWhile (\<lambda>c. c \<noteq> CHR ''.'') s"

text \<open>\<^verbatim>\<open>xs[a:b]\<close> for non-negative \<open>a\<close> and \<open>b\<close>.\<close>

definition slice :: "'a list \<Rightarrow> nat \<Rightarrow> nat \<Rightarrow> 'a list" where
  "slice xs a b = take (b - a) (drop a xs)"

section \<open>DataFrames\<close>

text \<open>
  A DataFrame of doubles: the column labels in order and the rows, each row holding one
  value per column. Columns are addressed by label; frames in which the addressed label
  occurs twice are outside the model (pandas then yields a frame instead of a column).
\<close>

record dataframe =
  columns :: "string list"
  rows :: "fl list list"

definition wf_df :: "dataframe \<Rightarrow> bool" where
  "wf_df df = (distinct (columns df) \<and> list_all (\<lambda>r. length r = length (columns df)) (rows df))"

fun index_of :: "'a list \<Rightarrow> 'a \<Rightarrow> nat option" where
  "index_of [] x = None"
| "index_of (y # ys) x = (if x = y then Some 0 else map_option Suc (index_of ys x))"

text \<open>\<^verbatim>\<open>df[col]\<close>: the column as a list, \<^verbatim>\<open>KeyError\<close> for an unknown label.\<close>

definition get_column :: "dataframe \<Rightarrow> string \<Rightarrow> error + fl list" where
  "get_column df col =
     (case index_of (columns df) col of
        None \<Rightarrow> Inl (KeyError col)
      | Some i \<Rightarrow> Inr (map (\<lambda>r. r ! i) (rows df)))"

text \<open>\<^verbatim>\<open>df[col] = values\<close>: overwrites the column when the label exists, appends it
  otherwise.\<close>

definition set_column :: "dataframe \<Rightarrow> string \<Rightarrow> fl list \<Rightarrow> dataframe" where
  "set_column df col vals =
     (case index_of (columns df) col of
        None \<Rightarrow> \<lparr>columns = columns df @ [col], rows = map2 (\<lambda>r v. r @ [v]) (rows df) vals\<rparr>
      | Some i \<Rightarrow> \<lparr>columns = columns df, rows = map2 (\<lambda>r v. r[i := v]) (rows df) vals\<rparr>)"

text \<open>\<^verbatim>\<open>df[mask]\<close> with a boolean mask of the frame's length: the rows whose mask entry
  is true.\<close>

definition select_rows :: "dataframe \<Rightarrow> bool list \<Rightarrow> dataframe" where
  "select_rows df keep = \<lparr>columns = columns df, rows = map fst (filter snd (zip (rows df) keep))\<rparr>"

text \<open>
  \<^verbatim>\<open>pd.DataFrame(data, columns=names)\<close> for a list of lists of doubles. pandas takes
  the width of the data to be the length of its longest row, fills shorter rows with NaN,
  and raises \<^verbatim>\<open>ValueError\<close> (\<^verbatim>\<open>k columns passed, passed data had w columns\<close>) when that
  width differs from the number of labels. Empty data gives an empty frame with the
  labels.
\<close>

definition data_width :: "'a list list \<Rightarrow> nat" where
  "data_width data = foldr (\<lambda>r w. max (length r) w) data 0"

definition pad_row :: "nat \<Rightarrow> fl list \<Rightarrow> fl list" where
  "pad_row w r = r @ replicate (w - length r) NaN"

definition DataFrame :: "fl list list \<Rightarrow> string list \<Rightarrow> error + dataframe" where
  "DataFrame data names =
     (if data = [] then Inr \<lparr>columns = names, rows = []\<rparr>
      else if data_width data \<noteq> length names
        then Inl (ValueError (ColumnsMismatch (length names) (data_width data)))
      else Inr \<lparr>columns = names, rows = map (pad_row (data_width data)) data\<rparr>)"

section \<open>LAS parsing\<close>

text \<open>
  The parsing code of the two driver scripts (\<^verbatim>\<open>crossplots.py\<close> lines 280 to 305,
  \<^verbatim>\<open>visualization.py\<close> lines 143 to 168; the two copies are the same statements).
  \<^verbatim>\<open>float()\<close> is a parameter \<open>to_float\<close>: \<open>None\<close> where Python raises
  \<^verbatim>\<open>ValueError\<close>.
\<close>

definition is_curve_marker :: "string \<Rightarrow> bool" where
  "is_curve_marker line = startswith (strip line) ''~Curve Information Block''"

definition is_ascii_marker :: "string \<Rightarrow> bool" where
  "is_ascii_marker line = startswith (strip line) ''~ASCII''"

text \<open>The section scan: \<open>i\<close> is the index of the line at the head of the list,
  \<open>curve_start\<close> the value assigned so far. The result is the pair
  \<open>(curve_start, ascii_start)\<close>, \<open>None\<close> for a variable still \<^verbatim>\<open>None\<close>.\<close>

fun find_sections :: "nat \<Rightarrow> nat option \<Rightarrow> string list \<Rightarrow> nat option \<times> nat option" where
  "find_sections i curve_start [] = (curve_start, None)"
| "find_sections i curve_start (line # rest) =
     (let curve_start' = (if is_curve_marker line then Some i else curve_start)
      in if is_ascii_marker line then (curve_start', Some (i + 1))
         else find_sections (i + 1) curve_start' rest)"

fun curve_names :: "string list \<Rightarrow> string list" where
  "curve_names [] = []"
| "curve_names (line # rest) =
     (if startswith (strip line) ''#'' \<or> strip line = [] then curve_names rest
      else (case str_split line of
              [] \<Rightarrow> curve_names rest
            | part # _ \<Rightarrow> split_dot_first part # curve_names rest))"

text \<open>\<^verbatim>\<open>[float(x) for x in tokens]\<close>: the first rejected token raises.\<close>

fun floats :: "(string \<Rightarrow> fl option) \<Rightarrow> string list \<Rightarrow> error + fl list" where
  "floats to_float [] = Inr []"
| "floats to_float (x # xs) =
     (case to_float x of
        None \<Rightarrow> Inl (ValueError (NotAFloat x))
      | Some v \<Rightarrow> (case floats to_float xs of Inl e \<Rightarrow> Inl e | Inr vs \<Rightarrow> Inr (v # vs)))"

fun parse_data :: "(string \<Rightarrow> fl option) \<Rightarrow> string list \<Rightarrow> error + fl list list" where
  "parse_data to_float [] = Inr []"
| "parse_data to_float (line # rest) =
     (if strip line \<noteq> [] then
        (case floats to_float (str_split line) of
           Inl e \<Rightarrow> Inl e
         | Inr row \<Rightarrow> (case parse_data to_float rest of Inl e \<Rightarrow> Inl e | Inr data \<Rightarrow> Inr (row # data)))
      else parse_data to_float rest)"

text \<open>The whole block. Adding 1 to, or subtracting 1 from, a variable that is still
  \<^verbatim>\<open>None\<close> raises \<^verbatim>\<open>TypeError\<close>.\<close>

definition parse :: "(string \<Rightarrow> fl option) \<Rightarrow> string list \<Rightarrow> error + dataframe" where
  "parse to_float lines =
     (case find_sections 0 None lines of
        (None, _) \<Rightarrow> Inl TypeError
      | (Some curve_start, None) \<Rightarrow> Inl TypeError
      | (Some curve_start, Some ascii_start) \<Rightarrow>
          (let names = curve_names (slice lines (curve_start + 1) (ascii_start - 1))
           in case parse_data to_float (drop ascii_start lines) of
                Inl e \<Rightarrow> Inl e
              | Inr data \<Rightarrow> DataFrame data names))"

section \<open>Plot contents\<close>

text \<open>
  A matplotlib axis is the list of the artists drawn on it, in drawing order. Point
  colours taken from the palette are positions in the sample
  \<^verbatim>\<open>plt.cm.tab10(np.linspace(0, 1, n))\<close>. Coordinates that come from the data are
  doubles; coordinates computed from literals only (the lithology overlay) are reals.
  Calls that only set axis labels, titles, limits, grids or the layout draw no data and
  are left out.
\<close>

datatype colouring = ByFormation "nat list" | ByDepth "fl list"

datatype artist =
    Scatter "fl list" "fl list" colouring
  | Legend "(string \<times> nat) list"
  | Colorbar string
  | DataLine "fl list" "fl list" string
  | Plot "real list" "real list" string string
  | AxHLine real
  | Text real real string
  | PercentText real real real

type_synonym axis = "artist list"

section \<open>Lithology overlay\<close>

definition sandstone_line :: "real list list" where
  "sandstone_line = [[0, 2.65], [0.4, 2.35]]"

definition limestone_line :: "real list list" where
  "limestone_line = [[0, 2.71], [0.4, 2.31]]"

definition dolomite_line :: "real list list" where
  "dolomite_line = [[0, 2.87], [0.4, 2.47]]"

text \<open>\<^verbatim>\<open>arr[:, j]\<close> of a two-dimensional array.\<close>

definition array_column :: "real list list \<Rightarrow> nat \<Rightarrow> real list" where
  "array_column arr j = map (\<lambda>r. r ! j) arr"

definition linspace :: "real \<Rightarrow> real \<Rightarrow> nat \<Rightarrow> real list" where
  "linspace start stop num = map (\<lambda>i. start + real i * ((stop - start) / real (num - 1))) [0..<num]"

definition porosities :: "real list" where
  "porosities = [0.1, 0.2, 0.3]"

definition add_lithology_lines :: "axis \<Rightarrow> axis" where
  "add_lithology_lines ax =
     (let clay_neutron = linspace 0.3 0.6 10;
          clay_density = map (\<lambda>n. 2.2 + 0.3 * n) clay_neutron
      in ax
         @ [Plot (array_column sandstone_line 0) (array_column sandstone_line 1) ''r-'' ''Sandstone'',
            Plot (array_column limestone_line 0) (array_column limestone_line 1) ''b-'' ''Limestone'',
            Plot (array_column dolomite_line 0) (array_column dolomite_line 1) ''g-'' ''Dolomite'']
         @ concat (map (\<lambda>phi. let ss_rho = 2.65 - phi * (2.65 - 1.0)
                                in [AxHLine ss_rho, PercentText 0.55 ss_rho phi]) porosities)
         @ [Text 0.05 2.65 ''Sandstone'', Text 0.05 2.71 ''Limestone'', Text 0.05 2.87 ''Dolomite'',
            Plot clay_neutron clay_density ''brown'' ''Clay trend'',
            Text 0.45 2.4 ''Clay''])"

section \<open>Neutron-density cross-plot\<close>

text \<open>\<^verbatim>\<open>np.argsort\<close>: the indices in ascending order of their values. Where values are
  equal numpy's order depends on the sorting kernel; the model keeps the original
  order, and no statement below depends on the order of equal values.\<close>

definition argsort :: "real list \<Rightarrow> nat list" where
  "argsort xs = sort_key (\<lambda>i. xs ! i) [0..<length xs]"

text \<open>The inner loop over \<^verbatim>\<open>enumerate(depth_list)\<close> (lines 94 to 97): \<open>i\<close> is the index
  of the head of the list, \<open>formation_idx\<close> the value assigned so far.\<close>

fun formation_idx_loop :: "fl \<Rightarrow> nat \<Rightarrow> real list \<Rightarrow> nat \<Rightarrow> nat" where
  "formation_idx_loop depth i [] formation_idx = formation_idx"
| "formation_idx_loop depth i (top_depth # rest) formation_idx =
     formation_idx_loop depth (i + 1) rest
       (if fge depth (Fin top_depth) then i else formation_idx)"

text \<open>One pass of the loop over the valid rows (lines 92 to 99): the colour and the
  label appended for a row of depth \<open>depth\<close>. Indexing past the end of a list raises
  \<^verbatim>\<open>IndexError\<close>.\<close>

definition assign_formation ::
  "nat list \<Rightarrow> string list \<Rightarrow> real list \<Rightarrow> fl \<Rightarrow> error + (nat \<times> string)" where
  "assign_formation formation_colors formation_list depth_list depth =
     (let formation_idx = formation_idx_loop depth 0 depth_list 0
      in if formation_idx < length formation_colors then
           (if formation_idx < length formation_list
            then Inr (formation_colors ! formation_idx, formation_list ! formation_idx)
            else Inl IndexError)
         else Inl IndexError)"

fun assign_formations ::
  "nat list \<Rightarrow> string list \<Rightarrow> real list \<Rightarrow> fl list \<Rightarrow> error + (nat \<times> string) list" where
  "assign_formations formation_colors formation_list depth_list [] = Inr []"
| "assign_formations formation_colors formation_list depth_list (depth # depths) =
     (case assign_formation formation_colors formation_list depth_list depth of
        Inl e \<Rightarrow> Inl e
      | Inr a \<Rightarrow>
          (case assign_formations formation_colors formation_list depth_list depths of
             Inl e \<Rightarrow> Inl e
           | Inr as \<Rightarrow> Inr (a # as)))"

text \<open>Lines 80 to 86: the names and depths of the mapping, reordered by depth. The
  mapping is the list of its items in insertion order.\<close>

definition sort_tops :: "(string \<times> real) list \<Rightarrow> string list \<times> real list" where
  "sort_tops formation_tops =
     (let formation_list = map fst formation_tops;
          depth_list = map snd formation_tops;
          sorted_indices = argsort depth_list
      in (map (\<lambda>i. formation_list ! i) sorted_indices, map (\<lambda>i. depth_list ! i) sorted_indices))"

text \<open>Lines 66 to 67: the rows in which neither the neutron nor the density value is
  the null sentinel.\<close>

definition crossplot_valid_data :: "dataframe \<Rightarrow> string \<Rightarrow> string \<Rightarrow> error + dataframe" where
  "crossplot_valid_data df neutron_col density_col =
     (case get_column df neutron_col of
        Inl e \<Rightarrow> Inl e
      | Inr neu \<Rightarrow>
          (case get_column df density_col of
             Inl e \<Rightarrow> Inl e
           | Inr den \<Rightarrow>
               Inr (select_rows df (map2 (\<lambda>n d. fne n null_value \<and> fne d null_value) neu den))))"

text \<open>Lines 77 to 116: the scatter plot of the non-empty \<open>valid_data\<close>, with the labels
  the loop collects. The depth of a row is read inside the loop, so an unknown depth
  column raises at the first row.\<close>

definition crossplot_scatter ::
  "dataframe \<Rightarrow> string \<Rightarrow> string \<Rightarrow> string \<Rightarrow> (string \<times> real) list option
     \<Rightarrow> error + (axis \<times> string list)" where
  "crossplot_scatter valid_data neutron_col density_col depth_col formation_tops =
     (case get_column valid_data depth_col of
        Inl e \<Rightarrow> Inl e
      | Inr depths \<Rightarrow>
     (case get_column valid_data neutron_col of
        Inl e \<Rightarrow> Inl e
      | Inr neu \<Rightarrow>
     (case get_column valid_data density_col of
        Inl e \<Rightarrow> Inl e
      | Inr den \<Rightarrow>
     (case formation_tops of
        Some tops \<Rightarrow>
          (let formation_colors = [0..<length tops];
               (formation_list, depth_list) = sort_tops tops
           in case assign_formations formation_colors formation_list depth_list depths of
                Inl e \<Rightarrow> Inl e
              | Inr assigned \<Rightarrow>
                  Inr ([Scatter neu den (ByFormation (map fst assigned)),
                        Legend (zip formation_list formation_colors)],
                       map snd assigned))
      | None \<Rightarrow> Inr ([Scatter neu den (ByDepth depths), Colorbar depth_col], [])))))"

text \<open>The function: the printed lines and the axis, \<open>None\<close> for the pair
  \<^verbatim>\<open>(None, None)\<close> that is returned when no row is valid.\<close>

definition neutron_density_crossplot ::
  "dataframe \<Rightarrow> string \<Rightarrow> string \<Rightarrow> string \<Rightarrow> (string \<times> real) list option
     \<Rightarrow> error + (string list \<times> axis option)" where
  "neutron_density_crossplot df neutron_col density_col depth_col formation_tops =
     (case crossplot_valid_data df neutron_col density_col of
        Inl e \<Rightarrow> Inl e
      | Inr valid_data \<Rightarrow>
          if length (rows valid_data) = 0
          then Inr ([''No valid data points found for cross-plot''], None)
          else (case crossplot_scatter valid_data neutron_col density_col depth_col formation_tops of
                  Inl e \<Rightarrow> Inl e
                | Inr (ax, labels) \<Rightarrow> Inr ([], Some (add_lithology_lines ax))))"

section \<open>Porosity comparison\<close>

text \<open>Lines 214 to 216: the copy of the frame with the column \<^verbatim>\<open>PHID\<close>, computed from
  the density column and then clipped.\<close>

definition calc_PHID :: "dataframe \<Rightarrow> string \<Rightarrow> fl \<Rightarrow> fl \<Rightarrow> error + dataframe" where
  "calc_PHID df density_col matrix_density fluid_density =
     (case get_column df density_col of
        Inl e \<Rightarrow> Inl e
      | Inr den \<Rightarrow>
          (let df_calc = set_column df ''PHID''
                 (map (\<lambda>d. fdiv (fsub matrix_density d) (fsub matrix_density fluid_density)) den)
           in case get_column df_calc ''PHID'' of
                Inl e \<Rightarrow> Inl e
              | Inr phid \<Rightarrow> Inr (set_column df_calc ''PHID'' (map (clip 0 1) phid))))"

text \<open>Lines 219 to 224: the four-part row filter on the frame with \<^verbatim>\<open>PHID\<close>.\<close>

definition porosity_filter :: "dataframe \<Rightarrow> string \<Rightarrow> string \<Rightarrow> error + dataframe" where
  "porosity_filter df_calc neutron_col density_col =
     (case get_column df_calc neutron_col of
        Inl e \<Rightarrow> Inl e
      | Inr neu \<Rightarrow>
     (case get_column df_calc density_col of
        Inl e \<Rightarrow> Inl e
      | Inr den \<Rightarrow>
     (case get_column df_calc ''PHID'' of
        Inl e \<Rightarrow> Inl e
      | Inr phid \<Rightarrow>
          Inr (select_rows df_calc
                 (map (\<lambda>(n, d, p). fne n null_value \<and> fne d null_value
                                     \<and> fge p (Fin 0) \<and> fle p (Fin 1))
                      (zip neu (zip den phid)))))))"

definition porosity_valid_data ::
  "dataframe \<Rightarrow> string \<Rightarrow> string \<Rightarrow> fl \<Rightarrow> fl \<Rightarrow> error + dataframe" where
  "porosity_valid_data df neutron_col density_col matrix_density fluid_density =
     (case calc_PHID df density_col matrix_density fluid_density of
        Inl e \<Rightarrow> Inl e
      | Inr df_calc \<Rightarrow> porosity_filter df_calc neutron_col density_col)"

text \<open>The function: the three axes of the figure.\<close>

definition porosity_estimation_plot ::
  "dataframe \<Rightarrow> string \<Rightarrow> string \<Rightarrow> string \<Rightarrow> fl \<Rightarrow> fl \<Rightarrow> error + axis list" where
  "porosity_estimation_plot df neutron_col density_col depth_col matrix_density fluid_density =
     (case porosity_valid_data df neutron_col density_col matrix_density fluid_density of
        Inl e \<Rightarrow> Inl e
      | Inr valid_data \<Rightarrow>
     (case get_column valid_data neutron_col of
        Inl e \<Rightarrow> Inl e
      | Inr neu \<Rightarrow>
     (case get_column valid_data depth_col of
        Inl e \<Rightarrow> Inl e
      | Inr depths \<Rightarrow>
     (case get_column valid_data ''PHID'' of
        Inl e \<Rightarrow> Inl e
      | Inr phid \<Rightarrow>
          Inr [[DataLine neu depths ''b-''],
               [DataLine phid depths ''r-''],
               [Scatter neu phid (ByDepth depths), Plot [0, 0.6] [0, 0.6] ''k--'' ''1:1 line'']]))))"

section \<open>Reference definitions\<close>

text \<open>The definitions of this section are not taken from the code: they state what the
  code is compared with.\<close>

text \<open>The porosity formula in double arithmetic: the quotient of the two differences,
  replaced by 0 when it is below 0 and by 1 when it is above 1.\<close>

definition spec_density_porosity :: "fl \<Rightarrow> fl \<Rightarrow> fl \<Rightarrow> fl" where
  "spec_density_porosity bulk_density matrix_density fluid_density =
     (let q = fdiv (fsub matrix_density bulk_density) (fsub matrix_density fluid_density)
      in if flt q (Fin 0) then Fin 0 else if flt (Fin 1) q then Fin 1 else q)"

text \<open>The classification rule: the name of the last top at or above the sample, the name
  of the first top when there is none.\<close>

definition spec_classify :: "fl \<Rightarrow> (string \<times> real) list \<Rightarrow> string" where
  "spec_classify depth tops =
     (let qualifying = filter (\<lambda>(name, top_depth). fle (Fin top_depth) depth) tops
      in if qualifying = [] then fst (hd tops) else fst (last qualifying))"

text \<open>The straight lines on an axis that are drawn between two points, with their label
  and end points.\<close>

fun two_point_lines :: "axis \<Rightarrow> (string \<times> (real \<times> real) \<times> (real \<times> real)) list" where
  "two_point_lines [] = []"
| "two_point_lines (Plot [x0, x1] [y0, y1] fmt label # rest) =
     (label, (x0, y0), (x1, y1)) # two_point_lines rest"
| "two_point_lines (_ # rest) = two_point_lines rest"

text \<open>The value a row holds in the column of a given label.\<close>

definition row_value :: "dataframe \<Rightarrow> string \<Rightarrow> fl list \<Rightarrow> fl" where
  "row_value df col r = (case index_of (columns df) col of None \<Rightarrow> NaN | Some i \<Rightarrow> r ! i)"

text \<open>The rows of the frame with \<^verbatim>\<open>PHID\<close> that the two sentinel tests alone retain:
  the filter of the comparison renderer without its two range tests.\<close>

definition sentinel_valid_data ::
  "dataframe \<Rightarrow> string \<Rightarrow> string \<Rightarrow> fl \<Rightarrow> fl \<Rightarrow> error + dataframe" where
  "sentinel_valid_data df neutron_col density_col matrix_density fluid_density =
     (case calc_PHID df density_col matrix_density fluid_density of
        Inl e \<Rightarrow> Inl e
      | Inr df_calc \<Rightarrow> crossplot_valid_data df_calc neutron_col density_col)"

text \<open>A line of the curve block declares a curve when it is neither blank nor a comment;
  its mnemonic is the first word of the line up to the first dot.\<close>

definition declares_curve :: "string \<Rightarrow> bool" where
  "declares_curve line = (\<not> startswith (strip line) ''#'' \<and> strip line \<noteq> [])"

definition mnemonic :: "string \<Rightarrow> string" where
  "mnemonic line = split_dot_first (hd (str_split line))"

text \<open>The data lines are the non-blank lines after the \<^verbatim>\<open>~ASCII\<close> line. Their first token
  that \<^verbatim>\<open>float()\<close> rejects, if any, and the table of their converted tokens.\<close>

definition data_lines :: "string list \<Rightarrow> string list" where
  "data_lines ls = filter (\<lambda>line. strip line \<noteq> []) ls"

definition first_bad_token :: "(string \<Rightarrow> fl option) \<Rightarrow> string list \<Rightarrow> string option" where
  "first_bad_token to_float ls = find (\<lambda>t. to_float t = None) (concat (map str_split (data_lines ls)))"

definition table_of :: "(string \<Rightarrow> fl option) \<Rightarrow> string list \<Rightarrow> fl list list" where
  "table_of to_float ls = map (\<lambda>line. map (\<lambda>t. the (to_float t)) (str_split line)) (data_lines ls)"

text \<open>\<^verbatim>\<open>float()\<close> on the tokens of the evaluated examples: it agrees with Python on the
  six tokens listed and on the words the examples use as non-numeric tokens.\<close>

definition float_fragment :: "string \<Rightarrow> fl option" where
  "float_fragment = map_of [(''1'', Fin 1), (''2'', Fin 2), (''3'', Fin 3), (''2.5'', Fin 2.5),
                            (''-999.25'', Fin (- 999.25)), (''nan'', NaN)]"

section \<open>Properties of the building blocks\<close>

lemma index_of_None: "index_of xs x = None \<longleftrightarrow> x \<notin> set xs"
  by (induction xs) auto

lemma index_of_Some: "index_of xs x = Some i \<Longrightarrow> i < length xs \<and> xs ! i = x"
  by (induction xs arbitrary: i) (auto split: if_splits)

lemma index_of_append_new: "x \<notin> set xs \<Longrightarrow> index_of (xs @ [x]) x = Some (length xs)"
  by (induction xs) auto

lemma index_of_append_old: "index_of xs y = Some i \<Longrightarrow> index_of (xs @ ys) y = Some i"
  by (induction xs arbitrary: i) (auto split: if_splits)

lemma clip_in_range:
  "clip 0 1 x = NaN \<or> (fle (Fin 0) (clip 0 1 x) \<and> fle (clip 0 1 x) (Fin 1))"
  by (cases x) (auto simp: clip_def fle_def)

lemma round64_0 [simp]: "round64 0 = Fin 0"
  by (simp add: round64_def)

lemma fdiv_NaN [simp]: "fdiv NaN b = NaN" "fdiv a NaN = NaN"
  by (simp_all add: fdiv_def)

lemma binade_numeral:
  "binade (numeral k) lo hi a =
     (if 2 powi ((lo + hi) div 2) \<le> a then binade (pred_numeral k) ((lo + hi) div 2) hi a
      else binade (pred_numeral k) lo ((lo + hi) div 2) a)"
  by (simp add: numeral_eq_Suc Let_def)

lemma round_magnitude_eval:
  "exponent64 a = e \<Longrightarrow> round_half_even (a / 2 powi (e - 52)) = r
     \<Longrightarrow> round_magnitude a = of_int r * 2 powi (e - 52)"
  by (simp add: round_magnitude_def Let_def)

text \<open>The bisection finds the binade of every magnitude in the range of the normal
  doubles, and stops at the ends of the exponent range outside it.\<close>

lemma binade_bounds:
  "2 powi lo \<le> a \<Longrightarrow> a < 2 powi hi \<Longrightarrow> hi - lo \<le> 2 ^ n \<Longrightarrow>
     2 powi (binade n lo hi a) \<le> a \<and> a < 2 powi (binade n lo hi a + 1)"
proof (induction n arbitrary: lo hi)
  case 0
  have "lo < hi"
  proof (rule ccontr)
    assume "\<not> lo < hi"
    then have "(2::real) powi hi \<le> 2 powi lo" by (intro power_int_increasing) auto
    with 0 show False by linarith
  qed
  with 0 have "hi = lo + 1" by simp
  with 0 show ?case by simp
next
  case (Suc n)
  have lt: "lo < hi"
  proof (rule ccontr)
    assume "\<not> lo < hi"
    then have "(2::real) powi hi \<le> 2 powi lo" by (intro power_int_increasing) auto
    with Suc.prems show False by linarith
  qed
  let ?mid = "(lo + hi) div 2"
  show ?case
  proof (cases "2 powi ?mid \<le> a")
    case True
    have "hi - ?mid \<le> 2 ^ n" using Suc.prems(3) by simp
    from Suc.IH[OF True Suc.prems(2) this] True show ?thesis by (simp add: Let_def)
  next
    case False
    then have "a < 2 powi ?mid" by simp
    moreover have "?mid - lo \<le> 2 ^ n" using Suc.prems(3) by simp
    ultimately show ?thesis using Suc.IH[OF Suc.prems(1)] False by (simp add: Let_def)
  qed
qed

lemma binade_below: "a < 2 powi lo \<Longrightarrow> lo \<le> hi \<Longrightarrow> binade n lo hi a = lo"
proof (induction n arbitrary: hi)
  case 0
  show ?case by simp
next
  case (Suc n)
  let ?mid = "(lo + hi) div 2"
  have mid: "lo \<le> ?mid" using Suc.prems(2) by simp
  then have "(2::real) powi lo \<le> 2 powi ?mid" by (intro power_int_increasing) auto
  with Suc.prems(1) have "\<not> 2 powi ?mid \<le> a" by linarith
  with Suc.IH[OF Suc.prems(1) mid] show ?case by (simp add: Let_def)
qed

lemma binade_above:
  "2 powi hi \<le> a \<Longrightarrow> lo < hi \<Longrightarrow> hi - lo \<le> 2 ^ n \<Longrightarrow> binade n lo hi a = hi - 1"
proof (induction n arbitrary: lo)
  case 0
  then show ?case by simp
next
  case (Suc n)
  let ?mid = "(lo + hi) div 2"
  have mid: "?mid < hi" using Suc.prems(2) by simp
  then have "(2::real) powi ?mid \<le> 2 powi hi" by (intro power_int_increasing) auto
  with Suc.prems(1) have le: "2 powi ?mid \<le> a" by linarith
  have "hi - ?mid \<le> 2 ^ n" using Suc.prems(3) by simp
  from Suc.IH[OF Suc.prems(1) mid this] le show ?case by (simp add: Let_def)
qed

lemma exponent64_bounds:
  assumes "2 powi (- 1022) \<le> a" "a < 2 powi 1024"
  shows "2 powi exponent64 a \<le> a \<and> a < 2 powi (exponent64 a + 1)"
  unfolding exponent64_def using assms by (intro binade_bounds) simp_all

lemma exponent64_subnormal: "a < 2 powi (- 1022) \<Longrightarrow> exponent64 a = - 1022"
  unfolding exponent64_def by (rule binade_below) simp_all

lemma exponent64_overflow: "2 powi 1024 \<le> a \<Longrightarrow> exponent64 a = 1023"
  unfolding exponent64_def using binade_above[of 1024 a "- 1022" 11] by simp

text \<open>The rounding on known cases: a literal that is not representable, the two ties
  next to 1, the subnormal range and underflow to the two zeros.\<close>

lemma round64_0_1: "round64 0.1 = Fin (3602879701896397 / 2 ^ 55)"
proof -
  have e: "exponent64 0.1 = - 4" by (simp add: exponent64_def binade_numeral)
  have r: "round_half_even (0.1 / 2 powi (- 4 - 52)) = 7205759403792794"
    by (simp add: round_half_even_def Let_def)
  have "round_magnitude 0.1 = 3602879701896397 / 2 ^ 55"
    using round_magnitude_eval[OF e r] by simp
  then show ?thesis by (simp add: round64_def Let_def)
qed

lemma round64_ties_to_even:
  "round64 (1 + 2 powi (- 53)) = Fin 1"
  "round64 (1 + 3 * 2 powi (- 53)) = Fin (1 + 2 powi (- 51))"
proof -
  have e1: "exponent64 (1 + 2 powi (- 53)) = 0" by (simp add: exponent64_def binade_numeral)
  have r1: "round_half_even ((1 + 2 powi (- 53)) / 2 powi (0 - 52)) = 2 ^ 52"
    by (simp add: round_half_even_def Let_def)
  have "round_magnitude (1 + 2 powi (- 53)) = 1" using round_magnitude_eval[OF e1 r1] by simp
  then show "round64 (1 + 2 powi (- 53)) = Fin 1" by (simp add: round64_def Let_def)
  have e2: "exponent64 (1 + 3 * 2 powi (- 53)) = 0" by (simp add: exponent64_def binade_numeral)
  have r2: "round_half_even ((1 + 3 * 2 powi (- 53)) / 2 powi (0 - 52)) = 2 ^ 52 + 2"
    by (simp add: round_half_even_def Let_def)
  have "round_magnitude (1 + 3 * 2 powi (- 53)) = 1 + 2 powi (- 51)"
    using round_magnitude_eval[OF e2 r2] by simp
  then show "round64 (1 + 3 * 2 powi (- 53)) = Fin (1 + 2 powi (- 51))" by (simp add: round64_def Let_def)
qed

lemma round64_subnormal:
  "round64 (3 * 2 powi (- 1075)) = Fin (2 powi (- 1073))"
  "round64 (2 powi (- 1075)) = Fin 0"
  "round64 (- (2 powi (- 1075))) = NegZero"
proof -
  have e1: "exponent64 (3 * 2 powi (- 1075)) = - 1022" by (simp add: exponent64_def binade_numeral)
  have r1: "round_half_even (3 * 2 powi (- 1075) / 2 powi (- 1022 - 52)) = 2"
    by (simp add: round_half_even_def Let_def)
  have "round_magnitude (3 * 2 powi (- 1075)) = 2 powi (- 1073)"
    using round_magnitude_eval[OF e1 r1] by simp
  then show "round64 (3 * 2 powi (- 1075)) = Fin (2 powi (- 1073))" by (simp add: round64_def Let_def)
  have e2: "exponent64 (2 powi (- 1075)) = - 1022" by (simp add: exponent64_def binade_numeral)
  have r2: "round_half_even (2 powi (- 1075) / 2 powi (- 1022 - 52)) = 0"
    by (simp add: round_half_even_def Let_def)
  have m: "round_magnitude (2 powi (- 1075)) = 0"
    using round_magnitude_eval[OF e2 r2] by simp
  then show "round64 (2 powi (- 1075)) = Fin 0" by (simp add: round64_def Let_def)
  from m show "round64 (- (2 powi (- 1075))) = NegZero" by (simp add: round64_def Let_def)
qed

text \<open>The doubles of the evaluated examples: the literals \<^verbatim>\<open>2.65\<close>, \<^verbatim>\<open>2.32\<close>, \<^verbatim>\<open>1.0\<close>
  and \<^verbatim>\<open>3.0\<close>, and the differences and quotients computed from them.\<close>

lemma round64_1: "round64 1 = Fin 1"
proof -
  have e: "exponent64 1 = 0" by (simp add: exponent64_def binade_numeral)
  have r: "round_half_even (1 / 2 powi (0 - 52)) = 2 ^ 52"
    by (simp add: round_half_even_def Let_def)
  have "round_magnitude 1 = 1" using round_magnitude_eval[OF e r] by simp
  then show ?thesis by (simp add: round64_def Let_def)
qed

lemma round64_3: "round64 3 = Fin 3"
proof -
  have e: "exponent64 3 = 1" by (simp add: exponent64_def binade_numeral)
  have r: "round_half_even (3 / 2 powi (1 - 52)) = 3 * 2 ^ 51"
    by (simp add: round_half_even_def Let_def)
  have "round_magnitude 3 = 3" using round_magnitude_eval[OF e r] by simp
  then show ?thesis by (simp add: round64_def Let_def)
qed

lemma round64_1_5: "round64 1.5 = Fin 1.5"
proof -
  have e: "exponent64 1.5 = 0" by (simp add: exponent64_def binade_numeral)
  have r: "round_half_even (1.5 / 2 powi (0 - 52)) = 3 * 2 ^ 51"
    by (simp add: round_half_even_def Let_def)
  have "round_magnitude 1.5 = 1.5" using round_magnitude_eval[OF e r] by simp
  then show ?thesis by (simp add: round64_def Let_def)
qed

lemma round64_2_65: "round64 2.65 = Fin (5967269506265907 / 2 ^ 51)"
proof -
  have e: "exponent64 2.65 = 1" by (simp add: exponent64_def binade_numeral)
  have r: "round_half_even (2.65 / 2 powi (1 - 52)) = 5967269506265907"
    by (simp add: round_half_even_def Let_def)
  have "round_magnitude 2.65 = 5967269506265907 / 2 ^ 51"
    using round_magnitude_eval[OF e r] by simp
  then show ?thesis by (simp add: round64_def Let_def)
qed

lemma round64_2_32: "round64 2.32 = Fin (5224175567749775 / 2 ^ 51)"
proof -
  have e: "exponent64 2.32 = 1" by (simp add: exponent64_def binade_numeral)
  have r: "round_half_even (2.32 / 2 powi (1 - 52)) = 5224175567749775"
    by (simp add: round_half_even_def Let_def)
  have "round_magnitude 2.32 = 5224175567749775 / 2 ^ 51"
    using round_magnitude_eval[OF e r] by simp
  then show ?thesis by (simp add: round64_def Let_def)
qed

lemma fsub_2_65_1:
  "fsub (Fin (5967269506265907 / 2 ^ 51)) (Fin 1) = Fin (3715469692580659 / 2 ^ 51)"
proof -
  have e: "exponent64 (3715469692580659 / 2 ^ 51) = 0" by (simp add: exponent64_def binade_numeral)
  have r: "round_half_even (3715469692580659 / 2 ^ 51 / 2 powi (0 - 52)) = 7430939385161318"
    by (simp add: round_half_even_def Let_def)
  have "round_magnitude (3715469692580659 / 2 ^ 51) = 3715469692580659 / 2 ^ 51"
    using round_magnitude_eval[OF e r] by simp
  then show ?thesis by (simp add: round64_def Let_def)
qed

lemma fsub_2_65_3:
  "fsub (Fin (5967269506265907 / 2 ^ 51)) (Fin 3) = Fin (- (788129934789837 / 2 ^ 51))"
proof -
  have e: "exponent64 (788129934789837 / 2 ^ 51) = - 2" by (simp add: exponent64_def binade_numeral)
  have r: "round_half_even (788129934789837 / 2 ^ 51 / 2 powi (- 2 - 52)) = 6305039478318696"
    by (simp add: round_half_even_def Let_def)
  have "round_magnitude (788129934789837 / 2 ^ 51) = 788129934789837 / 2 ^ 51"
    using round_magnitude_eval[OF e r] by simp
  then show ?thesis by (simp add: round64_def Let_def)
qed

lemma fsub_2_65_2_32:
  "fsub (Fin (5967269506265907 / 2 ^ 51)) (Fin (5224175567749775 / 2 ^ 51))
     = Fin (185773484629033 / 2 ^ 49)"
proof -
  have e: "exponent64 (185773484629033 / 2 ^ 49) = - 2" by (simp add: exponent64_def binade_numeral)
  have r: "round_half_even (185773484629033 / 2 ^ 49 / 2 powi (- 2 - 52)) = 5944751508129056"
    by (simp add: round_half_even_def Let_def)
  have "round_magnitude (185773484629033 / 2 ^ 49) = 185773484629033 / 2 ^ 49"
    using round_magnitude_eval[OF e r] by simp
  then show ?thesis by (simp add: round64_def Let_def)
qed

lemma fdiv_example_negative:
  "fdiv (Fin (- (788129934789837 / 2 ^ 51))) (Fin (3715469692580659 / 2 ^ 51))
     = Fin (- (7642472094931753 / 2 ^ 55))"
proof -
  have e: "exponent64 (788129934789837 / 3715469692580659) = - 3"
    by (simp add: exponent64_def binade_numeral)
  have r: "round_half_even (788129934789837 / 3715469692580659 / 2 powi (- 3 - 52)) = 7642472094931753"
    by (simp add: round_half_even_def Let_def)
  have "round_magnitude (788129934789837 / 3715469692580659) = 7642472094931753 / 2 ^ 55"
    using round_magnitude_eval[OF e r] by simp
  then show ?thesis by (simp add: fdiv_def is_zero_def is_inf_def round64_def Let_def)
qed

lemma fdiv_example_rounded:
  "fdiv (Fin (185773484629033 / 2 ^ 49)) (Fin (3715469692580659 / 2 ^ 51))
     = Fin (1801439850948199 / 2 ^ 53)"
proof -
  have e: "exponent64 (743093938516132 / 3715469692580659) = - 3"
    by (simp add: exponent64_def binade_numeral)
  have r: "round_half_even (743093938516132 / 3715469692580659 / 2 powi (- 3 - 52)) = 7205759403792796"
    by (simp add: round_half_even_def Let_def)
  have "round_magnitude (743093938516132 / 3715469692580659) = 1801439850948199 / 2 ^ 53"
    using round_magnitude_eval[OF e r] by simp
  then show ?thesis by (simp add: fdiv_def is_zero_def is_inf_def round64_def Let_def)
qed

lemma fdiv_same: "x \<noteq> 0 \<Longrightarrow> fdiv (Fin x) (Fin x) = Fin 1"
  using round64_1 by (simp add: fdiv_def is_zero_def is_inf_def)

lemma fdiv_zero_numerator: "x \<noteq> 0 \<Longrightarrow> fdiv (Fin 0) (Fin x) = (if 0 < x then Fin 0 else NegZero)"
  by (auto simp: fdiv_def is_zero_def is_inf_def)

text \<open>Overflow: the difference of the greatest power of two and its negation is an
  infinity, and the quotient of two such differences is NaN.\<close>

lemma fsub_overflow: "fsub (Fin (2 ^ 1023)) (Fin (- (2 ^ 1023))) = PosInf"
proof -
  have e: "exponent64 (2 ^ 1024) = 1023" by (simp add: exponent64_def binade_numeral)
  have r: "round_half_even (2 ^ 1024 / 2 powi (1023 - 52)) = 2 ^ 53"
    by (simp add: round_half_even_def Let_def)
  have "round_magnitude (2 ^ 1024) = 2 ^ 1024" using round_magnitude_eval[OF e r] by simp
  then show ?thesis by (simp add: round64_def Let_def)
qed

lemma fdiv_overflow:
  "fdiv (fsub (Fin (2 ^ 1023)) (Fin (- (2 ^ 1023)))) (fsub (Fin (2 ^ 1023)) (Fin (- (2 ^ 1023)))) = NaN"
  by (simp only: fsub_overflow) (simp add: fdiv_def is_inf_def)

lemma formation_idx_loop_snoc:
  "formation_idx_loop depth i (xs @ [x]) idx =
     (if fge depth (Fin x) then i + length xs else formation_idx_loop depth i xs idx)"
  by (induction xs arbitrary: i idx) auto

lemma classify_index:
  "tops \<noteq> [] \<Longrightarrow>
     formation_idx_loop depth 0 (map snd tops) 0 < length tops \<and>
     fst (tops ! formation_idx_loop depth 0 (map snd tops) 0) = spec_classify depth tops"
proof (induction tops rule: rev_induct)
  case Nil
  then show ?case by simp
next
  case (snoc t ts)
  show ?case
  proof (cases "fge depth (Fin (snd t))")
    case True
    then show ?thesis
      by (simp add: formation_idx_loop_snoc spec_classify_def fge_def case_prod_unfold)
  next
    case False
    show ?thesis
    proof (cases "ts = []")
      case True
      with False show ?thesis
        by (simp add: spec_classify_def fge_def case_prod_unfold)
    next
      case ne: False
      with snoc False show ?thesis
        by (simp add: formation_idx_loop_snoc spec_classify_def fge_def case_prod_unfold nth_append hd_append Let_def)
    qed
  qed
qed

lemma length_linspace: "length (linspace start stop num) = num"
  by (simp add: linspace_def)

lemma two_point_lines_skip:
  "length xs \<noteq> 2 \<Longrightarrow> two_point_lines (Plot xs ys fmt label # rest) = two_point_lines rest"
  by (cases "(Plot xs ys fmt label # rest)" rule: two_point_lines.cases) auto

lemma add_lithology_lines_append: "add_lithology_lines ax = ax @ add_lithology_lines []"
  by (simp add: add_lithology_lines_def Let_def)

lemma map2_recover:
  "length vals = length rs \<Longrightarrow> (\<And>r v. r \<in> set rs \<Longrightarrow> g (f r v) = v) \<Longrightarrow> map g (map2 f rs vals) = vals"
  by (induction vals rs rule: list_induct2) auto

lemma map2_keep:
  "length vals = length rs \<Longrightarrow> (\<And>r v. r \<in> set rs \<Longrightarrow> g (f r v) = g r) \<Longrightarrow> map g (map2 f rs vals) = map g rs"
  by (induction vals rs rule: list_induct2) auto

lemma get_column_length: "get_column df c = Inr xs \<Longrightarrow> length xs = length (rows df)"
  by (auto simp: get_column_def split: option.splits)

lemma get_column_Inr_iff: "(\<exists>xs. get_column df c = Inr xs) \<longleftrightarrow> c \<in> set (columns df)"
proof (cases "index_of (columns df) c")
  case None
  then show ?thesis by (simp add: get_column_def index_of_None[symmetric])
next
  case (Some i)
  then have "c \<in> set (columns df)" by (auto dest: index_of_Some)
  with Some show ?thesis by (simp add: get_column_def)
qed

lemma wf_df_row: "wf_df df \<Longrightarrow> r \<in> set (rows df) \<Longrightarrow> length r = length (columns df)"
  by (simp add: wf_df_def list_all_iff)

lemma get_set_column_same:
  assumes "wf_df df" "length vals = length (rows df)"
  shows "get_column (set_column df c vals) c = Inr vals"
proof (cases "index_of (columns df) c")
  case None
  then have "c \<notin> set (columns df)" by (simp add: index_of_None)
  then have i: "index_of (columns df @ [c]) c = Some (length (columns df))"
    by (rule index_of_append_new)
  have "map (\<lambda>r. r ! length (columns df)) (map2 (\<lambda>r v. r @ [v]) (rows df) vals) = vals"
    using assms by (intro map2_recover) (auto simp: nth_append dest: wf_df_row)
  with None i show ?thesis by (simp add: get_column_def set_column_def)
next
  case (Some i)
  then have "i < length (columns df)" by (auto dest: index_of_Some)
  then have "map (\<lambda>r. r ! i) (map2 (\<lambda>r v. r[i := v]) (rows df) vals) = vals"
    using assms by (intro map2_recover) (auto simp: wf_df_row)
  with Some show ?thesis by (simp add: get_column_def set_column_def)
qed

lemma get_set_column_other:
  assumes "wf_df df" "length vals = length (rows df)" "c' \<noteq> c"
  shows "get_column (set_column df c vals) c' = get_column df c'"
proof (cases "index_of (columns df) c")
  case None
  show ?thesis
  proof (cases "index_of (columns df) c'")
    case n: None
    then have "c' \<notin> set (columns df @ [c])" using assms(3) by (simp add: index_of_None)
    then have "index_of (columns df @ [c]) c' = None" by (metis index_of_None)
    with None n show ?thesis by (simp add: get_column_def set_column_def)
  next
    case (Some j)
    then have j: "j < length (columns df)" by (auto dest: index_of_Some)
    have "index_of (columns df @ [c]) c' = Some j" using Some by (rule index_of_append_old)
    moreover have "map (\<lambda>r. r ! j) (map2 (\<lambda>r v. r @ [v]) (rows df) vals) = map (\<lambda>r. r ! j) (rows df)"
      using assms j by (intro map2_keep) (auto simp: wf_df_row nth_append)
    ultimately show ?thesis using None Some by (simp add: get_column_def set_column_def)
  qed
next
  case (Some i)
  show ?thesis
  proof (cases "index_of (columns df) c'")
    case None
    with Some show ?thesis by (simp add: get_column_def set_column_def)
  next
    case s: (Some j)
    have "i \<noteq> j" using Some s assms(3) by (auto dest!: index_of_Some)
    then have "map (\<lambda>r. r ! j) (map2 (\<lambda>r v. r[i := v]) (rows df) vals) = map (\<lambda>r. r ! j) (rows df)"
      using assms by (intro map2_keep) auto
    with Some s show ?thesis by (simp add: get_column_def set_column_def)
  qed
qed

lemma rows_set_column_length:
  "length vals = length (rows df) \<Longrightarrow> length (rows (set_column df c vals)) = length (rows df)"
  by (simp add: set_column_def split: option.splits)

lemma wf_set_column:
  assumes "wf_df df" "length vals = length (rows df)"
  shows "wf_df (set_column df c vals)"
proof (cases "index_of (columns df) c")
  case None
  then have "c \<notin> set (columns df)" by (simp add: index_of_None)
  with assms None show ?thesis
    by (auto simp: wf_df_def set_column_def list_all_iff dest!: set_zip_leftD)
next
  case (Some i)
  with assms show ?thesis
    by (auto simp: wf_df_def set_column_def list_all_iff dest!: set_zip_leftD)
qed

lemma calc_PHID_column:
  assumes "wf_df df" "get_column df density_col = Inr den"
  shows "\<exists>df_calc. calc_PHID df density_col m f = Inr df_calc \<and> wf_df df_calc
           \<and> length (rows df_calc) = length (rows df)
           \<and> get_column df_calc ''PHID'' = Inr (map (\<lambda>d. clip 0 1 (fdiv (fsub m d) (fsub m f))) den)"
proof -
  let ?raw = "map (\<lambda>d. fdiv (fsub m d) (fsub m f)) den"
  let ?df1 = "set_column df ''PHID'' ?raw"
  let ?df2 = "set_column ?df1 ''PHID'' (map (clip 0 1) ?raw)"
  have len: "length ?raw = length (rows df)"
    using assms(2) by (simp add: get_column_length)
  have g1: "get_column ?df1 ''PHID'' = Inr ?raw"
    using assms(1) len by (rule get_set_column_same)
  have wf1: "wf_df ?df1" using assms(1) len by (rule wf_set_column)
  have len1: "length (map (clip 0 1) ?raw) = length (rows ?df1)"
    using len by (simp add: rows_set_column_length)
  have g2: "get_column ?df2 ''PHID'' = Inr (map (clip 0 1) ?raw)"
    using wf1 len1 by (rule get_set_column_same)
  have wf2: "wf_df ?df2" using wf1 len1 by (rule wf_set_column)
  have len2: "length (rows ?df2) = length (rows df)"
    using len len1 by (simp add: rows_set_column_length)
  have "calc_PHID df density_col m f = Inr ?df2"
    using assms(2) g1 by (simp add: calc_PHID_def)
  with wf2 len2 g2 show ?thesis by (simp add: comp_def)
qed

lemma filter_snd_all_False:
  "(\<And>m. m \<in> set ms \<Longrightarrow> \<not> m) \<Longrightarrow> filter snd (zip xs ms) = []"
  by (induction xs ms rule: list_induct2') auto

lemma select_rows_map: "select_rows df (map h (rows df)) = \<lparr>columns = columns df, rows = filter h (rows df)\<rparr>"
proof -
  have "map fst (filter snd (zip xs (map h xs))) = filter h xs" for xs :: "fl list list"
    by (induction xs) auto
  then show ?thesis by (simp add: select_rows_def)
qed

lemma zip3_map: "zip (map f xs) (zip (map g xs) (map k xs)) = map (\<lambda>x. (f x, g x, k x)) xs"
  by (induction xs) auto

lemma zip2_map: "zip (map f xs) (map g xs) = map (\<lambda>x. (f x, g x)) xs"
  by (induction xs) auto

lemma get_column_row_value:
  "get_column df c = Inr xs \<Longrightarrow> xs = map (row_value df c) (rows df)"
  by (auto simp: get_column_def row_value_def split: option.splits)

lemma crossplot_valid_data_filter:
  assumes "get_column df neutron_col = Inr neu" "get_column df density_col = Inr den"
  shows "crossplot_valid_data df neutron_col density_col =
           Inr \<lparr>columns = columns df,
                rows = filter (\<lambda>r. fne (row_value df neutron_col r) null_value
                                  \<and> fne (row_value df density_col r) null_value) (rows df)\<rparr>"
proof -
  have "map2 (\<lambda>n d. fne n null_value \<and> fne d null_value) neu den
      = map (\<lambda>r. fne (row_value df neutron_col r) null_value
                  \<and> fne (row_value df density_col r) null_value) (rows df)"
    using assms[THEN get_column_row_value] by (simp add: zip2_map comp_def)
  with assms show ?thesis
    by (simp add: crossplot_valid_data_def select_rows_map)
qed

lemma porosity_filter_filter:
  assumes "get_column df neutron_col = Inr neu" "get_column df density_col = Inr den"
    "get_column df ''PHID'' = Inr phid"
  shows "porosity_filter df neutron_col density_col =
           Inr \<lparr>columns = columns df,
                rows = filter (\<lambda>r. fne (row_value df neutron_col r) null_value
                                  \<and> fne (row_value df density_col r) null_value
                                  \<and> fge (row_value df ''PHID'' r) (Fin 0)
                                  \<and> fle (row_value df ''PHID'' r) (Fin 1)) (rows df)\<rparr>"
proof -
  have "map (\<lambda>(n, d, p). fne n null_value \<and> fne d null_value \<and> fge p (Fin 0) \<and> fle p (Fin 1))
          (zip neu (zip den phid))
      = map (\<lambda>r. fne (row_value df neutron_col r) null_value
                  \<and> fne (row_value df density_col r) null_value
                  \<and> fge (row_value df ''PHID'' r) (Fin 0)
                  \<and> fle (row_value df ''PHID'' r) (Fin 1)) (rows df)"
    using assms[THEN get_column_row_value] by (simp add: zip3_map comp_def)
  with assms show ?thesis
    by (simp add: porosity_filter_def select_rows_map)
qed

lemma clip_range_iff: "(fge (clip 0 1 x) (Fin 0) \<and> fle (clip 0 1 x) (Fin 1)) \<longleftrightarrow> clip 0 1 x \<noteq> NaN"
  by (cases x) (auto simp: clip_def fge_def fle_def)

lemma formation_idx_loop_bound:
  "ds \<noteq> [] \<Longrightarrow> formation_idx_loop depth 0 ds 0 < length ds"
proof (induction ds rule: rev_induct)
  case Nil
  then show ?case by simp
next
  case (snoc x xs)
  then show ?case by (cases "xs = []") (auto simp: formation_idx_loop_snoc)
qed

lemma assign_formations_ok:
  assumes "depth_list \<noteq> []" "length formation_list = length depth_list"
    "length formation_colors = length depth_list"
  shows "\<exists>as. assign_formations formation_colors formation_list depth_list depths = Inr as"
proof (induction depths)
  case Nil
  show ?case by simp
next
  case (Cons depth depths)
  from formation_idx_loop_bound[OF assms(1), of depth] assms(2,3)
  have "\<exists>a. assign_formation formation_colors formation_list depth_list depth = Inr a"
    by (simp add: assign_formation_def Let_def)
  with Cons show ?case by auto
qed

lemma insort_key_map_index:
  "map g (insort_key (\<lambda>i. f (g i)) x ys) = insort_key f (g x) (map g ys)"
  by (induction ys) auto

lemma sort_key_map_index: "map g (sort_key (\<lambda>i. f (g i)) ys) = sort_key f (map g ys)"
  by (induction ys) (simp_all add: insort_key_map_index)

lemma insort_key_cong_set:
  "f x = g x \<Longrightarrow> (\<And>y. y \<in> set ys \<Longrightarrow> f y = g y) \<Longrightarrow> insort_key f x ys = insort_key g x ys"
  by (induction ys) auto

lemma sort_key_cong_set:
  "(\<And>x. x \<in> set xs \<Longrightarrow> f x = g x) \<Longrightarrow> sort_key f xs = sort_key g xs"
proof (induction xs)
  case Nil
  show ?case by simp
next
  case (Cons x xs)
  then have "sort_key f xs = sort_key g xs" by simp
  moreover have "insort_key f x (sort_key g xs) = insort_key g x (sort_key g xs)"
    using Cons.prems by (intro insort_key_cong_set) auto
  ultimately show ?case by simp
qed

lemma set_argsort: "set (argsort xs) = {0..<length xs}"
  by (simp add: argsort_def)

lemma argsort_tops: "map (\<lambda>i. tops ! i) (argsort (map snd tops)) = sort_key snd tops"
proof -
  have "argsort (map snd tops) = sort_key (\<lambda>i. snd (tops ! i)) [0..<length tops]"
    unfolding argsort_def by (simp, rule sort_key_cong_set) simp
  then have "map (\<lambda>i. tops ! i) (argsort (map snd tops)) = sort_key snd (map (\<lambda>i. tops ! i) [0..<length tops])"
    by (simp add: sort_key_map_index)
  then show ?thesis by (simp add: map_nth)
qed

lemma sort_tops_eq: "sort_tops tops = (map fst (sort_key snd tops), map snd (sort_key snd tops))"
proof -
  have "map (\<lambda>i. map fst tops ! i) (argsort (map snd tops)) = map fst (map (\<lambda>i. tops ! i) (argsort (map snd tops)))"
    by (simp add: set_argsort)
  moreover have "map (\<lambda>i. map snd tops ! i) (argsort (map snd tops)) = map snd (map (\<lambda>i. tops ! i) (argsort (map snd tops)))"
    by (simp add: set_argsort)
  ultimately show ?thesis
    unfolding sort_tops_def Let_def argsort_tops by simp
qed

lemma sort_tops_permutation:
  assumes "mset tops1 = mset tops2" "distinct (map snd tops1)"
  shows "sort_tops tops1 = sort_tops tops2"
proof -
  have "inj_on snd (set tops1)" using assms(2) by (simp add: distinct_map)
  with assms(1) have "sort_key snd tops1 = sort_key snd tops2" by (rule sort_key_eq_sort_key)
  then show ?thesis by (simp add: sort_tops_eq)
qed

lemma sort_tops_lengths:
  "sort_tops tops = (fl, dl) \<Longrightarrow> length fl = length tops \<and> length dl = length tops"
  by (auto simp: sort_tops_eq)

lemma crossplot_valid_data_columns:
  "crossplot_valid_data df n d = Inr valid \<Longrightarrow> columns valid = columns df \<and> n \<in> set (columns df) \<and> d \<in> set (columns df)"
  using get_column_Inr_iff[of df n] get_column_Inr_iff[of df d]
  by (auto simp: crossplot_valid_data_def select_rows_def split: sum.splits)

lemma get_column_exists:
  "c \<in> set (columns df) \<Longrightarrow> \<exists>xs. get_column df c = Inr xs \<and> length xs = length (rows df)"
  using get_column_Inr_iff[of df c] by (auto dest: get_column_length)

lemma crossplot_scatter_raises_iff:
  assumes "rows valid \<noteq> []"
    and "neutron_col \<in> set (columns valid)" "density_col \<in> set (columns valid)"
    and "depth_col \<in> set (columns valid)"
  shows "crossplot_scatter valid neutron_col density_col depth_col (Some tops) = Inl IndexError \<and> tops = []
       \<or> (\<exists>r. crossplot_scatter valid neutron_col density_col depth_col (Some tops) = Inr r) \<and> tops \<noteq> []"
proof -
  from get_column_exists[OF assms(4)] obtain depths where
    depths: "get_column valid depth_col = Inr depths" "length depths = length (rows valid)" by blast
  from get_column_exists[OF assms(2)] obtain neu where neu: "get_column valid neutron_col = Inr neu" by blast
  from get_column_exists[OF assms(3)] obtain den where den: "get_column valid density_col = Inr den" by blast
  from depths(2) assms(1) obtain x xs where dx: "depths = x # xs" by (cases depths) auto
  show ?thesis
  proof (cases "tops = []")
    case True
    then have "sort_tops tops = ([], [])" by (simp add: sort_tops_eq)
    then show ?thesis using True depths(1) neu den dx
      by (simp add: crossplot_scatter_def assign_formation_def)
  next
    case False
    obtain fl dl where st: "sort_tops tops = (fl, dl)" by (cases "sort_tops tops")
    from sort_tops_lengths[OF st] False have "dl \<noteq> []" "length fl = length dl"
      "length [0..<length tops] = length dl" by auto
    from assign_formations_ok[OF this, of depths] obtain as where
      "assign_formations [0..<length tops] fl dl depths = Inr as" by blast
    then show ?thesis using False depths(1) neu den st
      by (simp add: crossplot_scatter_def)
  qed
qed

lemma markers_exclusive: "is_ascii_marker l \<Longrightarrow> \<not> is_curve_marker l"
proof
  assume a: "is_ascii_marker l" and c: "is_curve_marker l"
  from a have A: "take (length ''~ASCII'') (strip l) = ''~ASCII''"
    by (simp only: is_ascii_marker_def startswith_def)
  from c have C: "take (length ''~Curve Information Block'') (strip l) = ''~Curve Information Block''"
    by (simp only: is_curve_marker_def startswith_def)
  have "take 2 (strip l) = take 2 (take (length ''~ASCII'') (strip l))" by (simp add: numeral_2_eq_2)
  then have 1: "take 2 (strip l) = take 2 ''~ASCII''" by (simp only: A)
  have "take 2 (strip l) = take 2 (take (length ''~Curve Information Block'') (strip l))" by (simp add: numeral_2_eq_2)
  then have 2: "take 2 (strip l) = take 2 ''~Curve Information Block''" by (simp only: C)
  from 1 2 show False by simp
qed

lemma find_sections_skip:
  "(\<And>l. l \<in> set mid \<Longrightarrow> \<not> is_ascii_marker l \<and> \<not> is_curve_marker l) \<Longrightarrow>
     find_sections i cs (mid @ rest) = find_sections (i + length mid) cs rest"
  by (induction mid arbitrary: i) auto

lemma find_sections_no_ascii_prefix:
  "(\<And>l. l \<in> set pre \<Longrightarrow> \<not> is_ascii_marker l) \<Longrightarrow>
     \<exists>cs'. find_sections i cs (pre @ rest) = find_sections (i + length pre) cs' rest"
proof (induction pre arbitrary: i cs)
  case Nil
  show ?case by auto
next
  case (Cons l pre)
  from Cons.prems have na: "\<not> is_ascii_marker l" and rest: "\<And>l. l \<in> set pre \<Longrightarrow> \<not> is_ascii_marker l"
    by auto
  from Cons.IH[OF rest, of "Suc i" "if is_curve_marker l then Some i else cs"] na
  show ?case by (auto simp: Let_def)
qed

lemma find_sections_no_ascii:
  "(\<And>l. l \<in> set ls \<Longrightarrow> \<not> is_ascii_marker l) \<Longrightarrow> snd (find_sections i cs ls) = None"
  by (induction ls arbitrary: i cs) (auto simp: Let_def)

lemma find_sections_last_curve:
  assumes "is_curve_marker cm"
    and "\<And>l. l \<in> set mid \<Longrightarrow> \<not> is_curve_marker l"
    and "\<And>l. l \<in> set (pre @ cm # mid) \<Longrightarrow> \<not> is_ascii_marker l"
    and "is_ascii_marker am"
  shows "find_sections 0 None (pre @ cm # mid @ am # post)
           = (Some (length pre), Some (length pre + length mid + 2))"
proof -
  from find_sections_no_ascii_prefix[of pre 0 None "cm # mid @ am # post"] assms(3)
  obtain cs' where 1: "find_sections 0 None (pre @ cm # mid @ am # post)
      = find_sections (length pre) cs' (cm # mid @ am # post)" by auto
  have 2: "find_sections (length pre) cs' (cm # mid @ am # post)
      = find_sections (length pre + 1) (Some (length pre)) (mid @ am # post)"
    using assms(1,3) by (simp add: Let_def)
  have 3: "find_sections (length pre + 1) (Some (length pre)) (mid @ am # post)
      = find_sections (length pre + 1 + length mid) (Some (length pre)) (am # post)"
    using assms(2,3) by (intro find_sections_skip) auto
  have 4: "find_sections (length pre + 1 + length mid) (Some (length pre)) (am # post)
      = (Some (length pre), Some (length pre + length mid + 2))"
    using assms(4) markers_exclusive[OF assms(4)] by (simp add: Let_def)
  from 1 2 3 4 show ?thesis by simp
qed

lemma slice_between: "slice (pre @ cm # mid @ am # post) (length pre + 1) (length pre + length mid + 2 - 1) = mid"
  by (simp add: slice_def)

lemma drop_after: "drop (length pre + length mid + 2) (pre @ cm # mid @ am # post) = post"
  by simp

lemma split_acc_Nil_iff: "split_acc cur s = [] \<longleftrightarrow> cur = [] \<and> (\<forall>c \<in> set s. is_space c)"
  by (induction s arbitrary: cur) auto

lemma strip_Nil_iff: "strip s = [] \<longleftrightarrow> (\<forall>c \<in> set s. is_space c)"
proof
  assume "strip s = []"
  then have "dropWhile is_space (rev (dropWhile is_space s)) = []" by (simp add: strip_def)
  then have all: "\<forall>c \<in> set (dropWhile is_space s). is_space c"
    by (simp add: dropWhile_eq_Nil_conv)
  have "dropWhile is_space s = []"
  proof (rule ccontr)
    assume ne: "dropWhile is_space s \<noteq> []"
    then have "\<not> is_space (hd (dropWhile is_space s))" by (rule hd_dropWhile)
    moreover from ne have "hd (dropWhile is_space s) \<in> set (dropWhile is_space s)" by simp
    ultimately show False using all by blast
  qed
  then show "\<forall>c \<in> set s. is_space c" by (simp add: dropWhile_eq_Nil_conv)
next
  assume "\<forall>c \<in> set s. is_space c"
  then have "dropWhile is_space s = []" by simp
  then show "strip s = []" unfolding strip_def by (simp only: rev.simps dropWhile.simps)
qed

lemma str_split_Nil_iff: "str_split s = [] \<longleftrightarrow> strip s = []"
  by (simp add: str_split_def split_acc_Nil_iff strip_Nil_iff)

lemma curve_names_map_filter: "curve_names ls = map mnemonic (filter declares_curve ls)"
proof (induction ls)
  case Nil
  show ?case by simp
next
  case (Cons l ls)
  show ?case
  proof (cases "declares_curve l")
    case True
    then have "str_split l \<noteq> []" by (simp add: declares_curve_def str_split_Nil_iff)
    then obtain p ps where "str_split l = p # ps" by (cases "str_split l") auto
    with True Cons show ?thesis by (simp add: declares_curve_def mnemonic_def)
  next
    case False
    with Cons show ?thesis by (auto simp: declares_curve_def)
  qed
qed

lemma floats_find:
  "floats tf ts = (case find (\<lambda>t. tf t = None) ts of
                     Some t \<Rightarrow> Inl (ValueError (NotAFloat t))
                   | None \<Rightarrow> Inr (map (\<lambda>t. the (tf t)) ts))"
  by (induction ts) (auto split: option.splits)

lemma find_append_case:
  "find P (xs @ ys) = (case find P xs of Some x \<Rightarrow> Some x | None \<Rightarrow> find P ys)"
  by (induction xs) auto

lemma table_of_Cons:
  "table_of tf (l # ls) =
     (if strip l = [] then table_of tf ls
      else map (\<lambda>t. the (tf t)) (str_split l) # table_of tf ls)"
  by (simp add: table_of_def data_lines_def)

lemma first_bad_token_Cons:
  "first_bad_token tf (l # ls) =
     (if strip l = [] then first_bad_token tf ls
      else (case find (\<lambda>t. tf t = None) (str_split l) of
              Some t \<Rightarrow> Some t
            | None \<Rightarrow> first_bad_token tf ls))"
  by (simp add: first_bad_token_def data_lines_def find_append_case split: option.splits)

lemma parse_data_find:
  "parse_data tf ls = (case first_bad_token tf ls of
                         Some t \<Rightarrow> Inl (ValueError (NotAFloat t))
                       | None \<Rightarrow> Inr (table_of tf ls))"
proof (induction ls)
  case Nil
  show ?case by (simp add: first_bad_token_def table_of_def data_lines_def)
next
  case (Cons l ls)
  show ?case
  proof (cases "strip l = []")
    case True
    with Cons show ?thesis by (simp add: first_bad_token_Cons table_of_Cons split: option.splits)
  next
    case False
    with Cons show ?thesis
      by (simp add: first_bad_token_Cons table_of_Cons floats_find split: option.splits)
  qed
qed

lemma data_width_uniform:
  "data \<noteq> [] \<Longrightarrow> (\<And>r. r \<in> set data \<Longrightarrow> length r = k) \<Longrightarrow> data_width data = k"
  by (induction data rule: list_nonempty_induct) (auto simp: data_width_def)

lemma pad_row_full: "length r = w \<Longrightarrow> pad_row w r = r"
  by (simp add: pad_row_def)

lemma DataFrame_columns: "DataFrame data names = Inr df \<Longrightarrow> columns df = names"
  by (auto simp: DataFrame_def split: if_splits)

lemma parse_well_marked:
  assumes "is_curve_marker cm"
    and "\<forall>l\<in>set mid. \<not> is_curve_marker l"
    and "\<forall>l\<in>set (pre @ cm # mid). \<not> is_ascii_marker l"
    and "is_ascii_marker am"
  shows "parse tf (pre @ cm # mid @ am # post) =
           (case first_bad_token tf post of
              Some t \<Rightarrow> Inl (ValueError (NotAFloat t))
            | None \<Rightarrow> DataFrame (table_of tf post) (curve_names mid))"
proof -
  have fs: "find_sections 0 None (pre @ cm # mid @ am # post)
           = (Some (length pre), Some (length pre + length mid + 2))"
    using assms by (intro find_sections_last_curve) auto
  have sl: "slice (pre @ cm # mid @ am # post) (length pre + 1) (length pre + length mid + 2 - 1) = mid"
    by (rule slice_between)
  have dr: "drop (length pre + length mid + 2) (pre @ cm # mid @ am # post) = post"
    by (rule drop_after)
  show ?thesis
    unfolding parse_def fs prod.case option.case Let_def sl dr parse_data_find
    by (simp split: option.splits)
qed

lemma parse_no_ascii:
  assumes "\<forall>l\<in>set lines. \<not> is_ascii_marker l"
  shows "parse tf lines = Inl TypeError"
proof -
  from assms have "snd (find_sections 0 None lines) = None"
    by (intro find_sections_no_ascii) auto
  then show ?thesis
    by (cases "find_sections 0 None lines") (auto simp: parse_def split: option.splits)
qed

lemma parse_no_curve:
  assumes "\<forall>l\<in>set pre. \<not> is_ascii_marker l \<and> \<not> is_curve_marker l" and "is_ascii_marker am"
  shows "parse tf (pre @ am # post) = Inl TypeError"
proof -
  have "find_sections 0 None (pre @ am # post) = find_sections (0 + length pre) None (am # post)"
    using assms(1) by (intro find_sections_skip) auto
  then have "find_sections 0 None (pre @ am # post) = (None, Some (length pre + 1))"
    using assms(2) markers_exclusive[OF assms(2)] by (simp add: Let_def)
  then show ?thesis by (simp add: parse_def)
qed

lemma marker_examples:
  "is_curve_marker ''~Curve Information Block''"
  "is_ascii_marker ''~ASCII''"
  "\<not> is_ascii_marker ''~Curve Information Block''"
  "\<not> is_curve_marker ''~ASCII''"
  "\<not> is_curve_marker ''# header''" "\<not> is_ascii_marker ''# header''"
  "\<not> is_curve_marker ''A''" "\<not> is_ascii_marker ''A''"
  "\<not> is_curve_marker ''B''" "\<not> is_ascii_marker ''B''"
  "\<not> is_curve_marker ''OLD.M''" "\<not> is_ascii_marker ''OLD.M''"
  "\<not> is_curve_marker ''DEPT.M''" "\<not> is_ascii_marker ''DEPT.M''"
  "\<not> is_curve_marker '' GR  .API  gamma ray''" "\<not> is_ascii_marker '' GR  .API  gamma ray''"
  "\<not> is_curve_marker ''# comment''" "\<not> is_ascii_marker ''# comment''"
  "\<not> is_curve_marker ''GR.CPS''" "\<not> is_ascii_marker ''GR.CPS''"
  by (simp_all add: is_curve_marker_def is_ascii_marker_def startswith_def strip_def is_space_def)

text \<open>A no-break space or a next-line character is whitespace: a line that holds nothing
  else is blank, and a marker may follow one.\<close>

lemma nbsp_is_blank: "strip [CHR 0xA0] = []" "str_split [CHR 0xA0] = []" "strip [CHR 0x85] = []"
  by (simp_all add: strip_def str_split_def is_space_def)

lemma nbsp_before_marker: "is_ascii_marker (CHR 0xA0 # ''~ASCII'')" "is_curve_marker (CHR 0x85 # ''~Curve Information Block'')"
  by (simp_all add: is_curve_marker_def is_ascii_marker_def startswith_def strip_def is_space_def)

lemma nbsp_line_skipped:
  "parse float_fragment [''~Curve Information Block'', ''A'', [CHR 0xA0], ''~ASCII'', ''1 2'']
     = Inl (ValueError (ColumnsMismatch 1 2))"
  by (simp add: parse_def marker_examples is_curve_marker_def is_ascii_marker_def
      slice_def startswith_def strip_def is_space_def
      str_split_def split_dot_first_def float_fragment_def DataFrame_def data_width_def pad_row_def)

section \<open>Lithology reference geometry\<close>

text \<open>
  Claim C5. Whatever the axis holds already, \<open>add_lithology_lines\<close> draws exactly three
  two-point lines on it: sandstone from \<open>(0, 2.65)\<close> to \<open>(0.4, 2.35)\<close>, limestone from
  \<open>(0, 2.71)\<close> to \<open>(0.4, 2.31)\<close> and dolomite from \<open>(0, 2.87)\<close> to \<open>(0.4, 2.47)\<close>. The
  function takes no data, and the artists it adds do not depend on the axis it is given.
\<close>

theorem lithology_lines_fixed:
  "two_point_lines (drop (length ax) (add_lithology_lines ax)) =
     [(''Sandstone'', (0, 2.65), (0.4, 2.35)),
      (''Limestone'', (0, 2.71), (0.4, 2.31)),
      (''Dolomite'', (0, 2.87), (0.4, 2.47))]
   \<and> add_lithology_lines ax = ax @ add_lithology_lines []"
  by (simp add: add_lithology_lines_def Let_def porosities_def two_point_lines_skip length_linspace
      sandstone_line_def limestone_line_def dolomite_line_def array_column_def)

section \<open>Formation classification\<close>

text \<open>
  Claim C3. For a non-empty sequence of tops sorted by depth, the pass of the row loop
  for a sample of depth \<open>depth\<close> yields the name of the last top whose depth is at most
  \<open>depth\<close>, and the name of the first top when no top qualifies. For the tops
  \<open>A\<close> at 0, \<open>B\<close> at 100 and \<open>C\<close> at 200 the samples at 50, 150, 250 and -10 are assigned
  \<open>A\<close>, \<open>B\<close>, \<open>C\<close> and \<open>A\<close>.
\<close>

theorem classify_last_top:
  "(tops \<noteq> [] \<and> sorted (map snd tops) \<longrightarrow>
      (\<exists>c. assign_formation [0..<length tops] (map fst tops) (map snd tops) depth
            = Inr (c, spec_classify depth tops)))
   \<and> assign_formation [0, 1, 2] [''A'', ''B'', ''C''] [0, 100, 200] (Fin 50) = Inr (0, ''A'')
   \<and> assign_formation [0, 1, 2] [''A'', ''B'', ''C''] [0, 100, 200] (Fin 150) = Inr (1, ''B'')
   \<and> assign_formation [0, 1, 2] [''A'', ''B'', ''C''] [0, 100, 200] (Fin 250) = Inr (2, ''C'')
   \<and> assign_formation [0, 1, 2] [''A'', ''B'', ''C''] [0, 100, 200] (Fin (- 10)) = Inr (0, ''A'')"
proof -
  have general: "\<exists>c. assign_formation [0..<length tops] (map fst tops) (map snd tops) depth
            = Inr (c, spec_classify depth tops)" if "tops \<noteq> []"
    using classify_index[OF that, of depth] by (simp add: assign_formation_def Let_def)
  have examples:
    "assign_formation [0, 1, 2] [''A'', ''B'', ''C''] [0, 100, 200] (Fin 50) = Inr (0, ''A'')"
    "assign_formation [0, 1, 2] [''A'', ''B'', ''C''] [0, 100, 200] (Fin 150) = Inr (1, ''B'')"
    "assign_formation [0, 1, 2] [''A'', ''B'', ''C''] [0, 100, 200] (Fin 250) = Inr (2, ''C'')"
    "assign_formation [0, 1, 2] [''A'', ''B'', ''C''] [0, 100, 200] (Fin (- 10)) = Inr (0, ''A'')"
    by (simp_all add: assign_formation_def fge_def fle_def)
  from general examples show ?thesis by blast
qed

theorem classify_last_top_witness:
  "[(''A'', 0), (''B'', 100), (''C'', 200 :: real)] \<noteq> []
   \<and> sorted (map snd [(''A'', 0), (''B'', 100), (''C'', 200 :: real)])
   \<and> (\<exists>c. assign_formation [0..<length [(''A'', 0), (''B'', 100), (''C'', 200 :: real)]]
             (map fst [(''A'', 0), (''B'', 100), (''C'', 200 :: real)])
             (map snd [(''A'', 0), (''B'', 100), (''C'', 200 :: real)]) (Fin 150)
           = Inr (c, ''B''))"
  using classify_last_top[of "[(''A'', 0), (''B'', 100), (''C'', 200)]" "Fin 150"]
  by (simp add: spec_classify_def fle_def)

section \<open>Density porosity\<close>

text \<open>
  Claim C6. The column \<^verbatim>\<open>PHID\<close> that the comparison renderer computes holds, for every
  sample, the quotient \<open>(matrix_density - bulk_density) / (matrix_density - fluid_density)\<close>
  computed in double arithmetic and clamped to the unit interval: every value is NaN or
  lies between 0 and 1. With the doubles of the literals 2.65 and 1.0 as matrix and fluid
  density, the doubles of the bulk densities 2.65, 1.0 and 3.0 give 0, 1 and 0.
\<close>

theorem density_porosity_clamped:
  "(wf_df df \<and> get_column df density_col = Inr den \<longrightarrow>
      (\<exists>df_calc. calc_PHID df density_col matrix_density fluid_density = Inr df_calc
         \<and> get_column df_calc ''PHID''
             = Inr (map (\<lambda>b. spec_density_porosity b matrix_density fluid_density) den)))
   \<and> (spec_density_porosity bulk_density matrix_density fluid_density = NaN
        \<or> (fle (Fin 0) (spec_density_porosity bulk_density matrix_density fluid_density)
           \<and> fle (spec_density_porosity bulk_density matrix_density fluid_density) (Fin 1)))
   \<and> calc_PHID \<lparr>columns = [''DEN''], rows = [[round64 2.65], [round64 1.0], [round64 3.0]]\<rparr>
         ''DEN'' (round64 2.65) (round64 1.0)
       = Inr \<lparr>columns = [''DEN'', ''PHID''],
              rows = [[round64 2.65, Fin 0], [round64 1.0, Fin 1], [round64 3.0, Fin 0]]\<rparr>"
proof -
  have sdp: "spec_density_porosity b m f = clip 0 1 (fdiv (fsub m b) (fsub m f))" for b m f
    by (simp add: spec_density_porosity_def clip_def Let_def)
  have general: "\<exists>df_calc. calc_PHID df density_col matrix_density fluid_density = Inr df_calc
         \<and> get_column df_calc ''PHID''
             = Inr (map (\<lambda>b. spec_density_porosity b matrix_density fluid_density) den)"
    if "wf_df df" "get_column df density_col = Inr den"
    using calc_PHID_column[OF that, of matrix_density fluid_density] by (auto simp: sdp)
  have range: "spec_density_porosity bulk_density matrix_density fluid_density = NaN
        \<or> (fle (Fin 0) (spec_density_porosity bulk_density matrix_density fluid_density)
           \<and> fle (spec_density_porosity bulk_density matrix_density fluid_density) (Fin 1))"
    unfolding sdp by (rule clip_in_range)
  have example: "calc_PHID \<lparr>columns = [''DEN''], rows = [[round64 2.65], [round64 1.0], [round64 3.0]]\<rparr>
         ''DEN'' (round64 2.65) (round64 1.0)
       = Inr \<lparr>columns = [''DEN'', ''PHID''],
              rows = [[round64 2.65, Fin 0], [round64 1.0, Fin 1], [round64 3.0, Fin 0]]\<rparr>"
    using round64_1 round64_3 round64_2_65 fsub_2_65_1 fsub_2_65_3 fdiv_example_negative
      fdiv_same[of "3715469692580659 / 2 ^ 51"] fdiv_zero_numerator[of "3715469692580659 / 2 ^ 51"]
    by (simp add: calc_PHID_def get_column_def set_column_def clip_def)
  from general range example show ?thesis by blast
qed

theorem density_porosity_clamped_witness:
  "wf_df \<lparr>columns = [''DEPT'', ''DEN''], rows = [[Fin 100, round64 2.32]]\<rparr>
   \<and> get_column \<lparr>columns = [''DEPT'', ''DEN''], rows = [[Fin 100, round64 2.32]]\<rparr> ''DEN''
       = Inr [round64 2.32]
   \<and> (\<exists>df_calc. calc_PHID \<lparr>columns = [''DEPT'', ''DEN''], rows = [[Fin 100, round64 2.32]]\<rparr>
                    ''DEN'' (round64 2.65) (round64 1.0) = Inr df_calc
         \<and> get_column df_calc ''PHID'' = Inr [Fin (1801439850948199 / 2 ^ 53)])"
proof -
  let ?df = "\<lparr>columns = [''DEPT'', ''DEN''], rows = [[Fin 100, round64 2.32]]\<rparr>"
  have wf: "wf_df ?df" by (simp add: wf_df_def)
  have den: "get_column ?df ''DEN'' = Inr [round64 2.32]" by (simp add: get_column_def)
  have phid: "spec_density_porosity (round64 2.32) (round64 2.65) (round64 1.0)
                 = Fin (1801439850948199 / 2 ^ 53)"
    using round64_1 round64_2_65 round64_2_32 fsub_2_65_1 fsub_2_65_2_32 fdiv_example_rounded
    by (simp add: spec_density_porosity_def Let_def)
  from density_porosity_clamped[of ?df "''DEN''" "[round64 2.32]" "round64 2.65" "round64 1.0"]
    wf den phid
  show ?thesis by simp
qed

section \<open>Cross-plot without valid samples\<close>

text \<open>
  Claim C7. When every row of the table holds the null sentinel in the neutron or in the
  density column, \<open>neutron_density_crossplot\<close> raises nothing, prints the line that says
  that no valid data points were found and returns no axis.
\<close>

theorem crossplot_no_data:
  assumes "wf_df df"
    and "get_column df neutron_col = Inr neu"
    and "get_column df density_col = Inr den"
    and "\<forall>(n, d) \<in> set (zip neu den). n = null_value \<or> d = null_value"
  shows "neutron_density_crossplot df neutron_col density_col depth_col formation_tops
           = Inr ([''No valid data points found for cross-plot''], None)"
proof -
  have "\<not> m" if "m \<in> set (map2 (\<lambda>n d. fne n null_value \<and> fne d null_value) neu den)" for m
    using that assms(4) by (auto simp: fne_def null_value_def)
  then have "filter snd (zip (rows df) (map2 (\<lambda>n d. fne n null_value \<and> fne d null_value) neu den)) = []"
    by (rule filter_snd_all_False)
  then show ?thesis
    using assms(2,3)
    by (simp add: neutron_density_crossplot_def crossplot_valid_data_def select_rows_def)
qed

theorem crossplot_no_data_witness:
  "wf_df \<lparr>columns = [''DEPT'', ''NEU'', ''DEN''],
          rows = [[Fin 100, Fin 0.2, Fin (- 999.25)], [Fin 101, Fin (- 999.25), Fin 2.4]]\<rparr>
   \<and> get_column \<lparr>columns = [''DEPT'', ''NEU'', ''DEN''],
          rows = [[Fin 100, Fin 0.2, Fin (- 999.25)], [Fin 101, Fin (- 999.25), Fin 2.4]]\<rparr> ''NEU''
        = Inr [Fin 0.2, Fin (- 999.25)]
   \<and> get_column \<lparr>columns = [''DEPT'', ''NEU'', ''DEN''],
          rows = [[Fin 100, Fin 0.2, Fin (- 999.25)], [Fin 101, Fin (- 999.25), Fin 2.4]]\<rparr> ''DEN''
        = Inr [Fin (- 999.25), Fin 2.4]
   \<and> neutron_density_crossplot \<lparr>columns = [''DEPT'', ''NEU'', ''DEN''],
          rows = [[Fin 100, Fin 0.2, Fin (- 999.25)], [Fin 101, Fin (- 999.25), Fin 2.4]]\<rparr>
          ''NEU'' ''DEN'' ''DEPT'' (Some [(''FM-1'', 479)])
        = Inr ([''No valid data points found for cross-plot''], None)"
proof -
  let ?df = "\<lparr>columns = [''DEPT'', ''NEU'', ''DEN''],
          rows = [[Fin 100, Fin 0.2, Fin (- 999.25)], [Fin 101, Fin (- 999.25), Fin 2.4]]\<rparr>"
  have wf: "wf_df ?df" by (simp add: wf_df_def)
  have neu: "get_column ?df ''NEU'' = Inr [Fin 0.2, Fin (- 999.25)]" by (simp add: get_column_def)
  have den: "get_column ?df ''DEN'' = Inr [Fin (- 999.25), Fin 2.4]" by (simp add: get_column_def)
  have all: "\<forall>(n, d) \<in> set (zip [Fin 0.2, Fin (- 999.25)] [Fin (- 999.25), Fin 2.4]).
               n = null_value \<or> d = null_value"
    by (simp add: null_value_def)
  from wf neu den crossplot_no_data[OF wf neu den all, of "''DEPT''" "Some [(''FM-1'', 479)]"]
  show ?thesis by blast
qed

section \<open>The range filter of the porosity comparison\<close>

text \<open>
  Claim C8, as amended. The range tests on the clipped \<^verbatim>\<open>PHID\<close> remove exactly the rows
  whose \<^verbatim>\<open>PHID\<close> is NaN from the rows that the two sentinel tests retain; when no
  retained row has a NaN \<^verbatim>\<open>PHID\<close>, the range tests remove nothing.
\<close>

theorem range_filter_drops_nan_rows:
  assumes "wf_df df"
    and "porosity_valid_data df neutron_col density_col matrix_density fluid_density = Inr v"
  shows "\<exists>s. sentinel_valid_data df neutron_col density_col matrix_density fluid_density = Inr s
           \<and> v = \<lparr>columns = columns s, rows = filter (\<lambda>r. row_value s ''PHID'' r \<noteq> NaN) (rows s)\<rparr>
           \<and> (list_all (\<lambda>r. row_value s ''PHID'' r \<noteq> NaN) (rows s) \<longrightarrow> v = s)"
proof -
  from assms(2) obtain df_calc where
    calc: "calc_PHID df density_col matrix_density fluid_density = Inr df_calc"
    and filt: "porosity_filter df_calc neutron_col density_col = Inr v"
    by (auto simp: porosity_valid_data_def split: sum.splits)
  from calc obtain den where den: "get_column df density_col = Inr den"
    by (auto simp: calc_PHID_def split: sum.splits)
  from calc_PHID_column[OF assms(1) den, of matrix_density fluid_density] calc
  have phid: "get_column df_calc ''PHID''
      = Inr (map (\<lambda>d. clip 0 1 (fdiv (fsub matrix_density d) (fsub matrix_density fluid_density))) den)"
    by simp
  from filt obtain neu' den' where
    neu': "get_column df_calc neutron_col = Inr neu'" and den': "get_column df_calc density_col = Inr den'"
    by (auto simp: porosity_filter_def split: sum.splits)
  let ?A = "\<lambda>r. fne (row_value df_calc neutron_col r) null_value
                 \<and> fne (row_value df_calc density_col r) null_value"
  let ?s = "\<lparr>columns = columns df_calc, rows = filter ?A (rows df_calc)\<rparr>"
  have s: "sentinel_valid_data df neutron_col density_col matrix_density fluid_density = Inr ?s"
    using calc crossplot_valid_data_filter[OF neu' den'] by (simp add: sentinel_valid_data_def)
  have clipped: "\<exists>x. row_value df_calc ''PHID'' r = clip 0 1 x" if "r \<in> set (rows df_calc)" for r
  proof -
    from get_column_row_value[OF phid] that
    have "row_value df_calc ''PHID'' r
            \<in> set (map (\<lambda>d. clip 0 1 (fdiv (fsub matrix_density d) (fsub matrix_density fluid_density))) den)"
      by simp
    then show ?thesis by auto
  qed
  have v: "v = \<lparr>columns = columns df_calc,
               rows = filter (\<lambda>r. ?A r \<and> fge (row_value df_calc ''PHID'' r) (Fin 0)
                                  \<and> fle (row_value df_calc ''PHID'' r) (Fin 1)) (rows df_calc)\<rparr>"
    using porosity_filter_filter[OF neu' den' phid] filt by simp
  have rv: "row_value ?s ''PHID'' = row_value df_calc ''PHID''"
    by (simp add: row_value_def fun_eq_iff)
  have "filter (\<lambda>r. ?A r \<and> fge (row_value df_calc ''PHID'' r) (Fin 0)
                          \<and> fle (row_value df_calc ''PHID'' r) (Fin 1)) (rows df_calc)
      = filter (\<lambda>r. row_value df_calc ''PHID'' r \<noteq> NaN) (filter ?A (rows df_calc))"
    unfolding filter_filter
  proof (rule filter_cong[OF refl])
    fix r assume "r \<in> set (rows df_calc)"
    then obtain x where x: "row_value df_calc ''PHID'' r = clip 0 1 x" using clipped by blast
    show "(?A r \<and> fge (row_value df_calc ''PHID'' r) (Fin 0) \<and> fle (row_value df_calc ''PHID'' r) (Fin 1))
        = (?A r \<and> row_value df_calc ''PHID'' r \<noteq> NaN)"
      unfolding x using clip_range_iff[of x] by blast
  qed
  with v rv have eq: "v = \<lparr>columns = columns ?s, rows = filter (\<lambda>r. row_value ?s ''PHID'' r \<noteq> NaN) (rows ?s)\<rparr>"
    by simp
  have "v = ?s" if "list_all (\<lambda>r. row_value ?s ''PHID'' r \<noteq> NaN) (rows ?s)"
  proof -
    from that have "\<forall>r \<in> set (rows ?s). row_value ?s ''PHID'' r \<noteq> NaN"
      by (simp only: list_all_iff)
    then have "filter (\<lambda>r. row_value ?s ''PHID'' r \<noteq> NaN) (rows ?s) = rows ?s"
      by (rule filter_True)
    with eq show ?thesis by simp
  qed
  then have "list_all (\<lambda>r. row_value ?s ''PHID'' r \<noteq> NaN) (rows ?s) \<longrightarrow> v = ?s" by (rule impI)
  with s eq show ?thesis by (intro exI[of _ ?s] conjI)
qed

theorem range_filter_drops_nan_rows_witness:
  "wf_df \<lparr>columns = [''DEPT'', ''NEU'', ''DEN''],
          rows = [[Fin 100, Fin 0.25, Fin 2.5], [Fin 101, Fin 0.25, NaN]]\<rparr>
   \<and> porosity_valid_data \<lparr>columns = [''DEPT'', ''NEU'', ''DEN''],
          rows = [[Fin 100, Fin 0.25, Fin 2.5], [Fin 101, Fin 0.25, NaN]]\<rparr>
          ''NEU'' ''DEN'' (Fin 2.5) (Fin 1.0)
       = Inr \<lparr>columns = [''DEPT'', ''NEU'', ''DEN'', ''PHID''],
              rows = [[Fin 100, Fin 0.25, Fin 2.5, Fin 0]]\<rparr>
   \<and> (\<exists>s. sentinel_valid_data \<lparr>columns = [''DEPT'', ''NEU'', ''DEN''],
          rows = [[Fin 100, Fin 0.25, Fin 2.5], [Fin 101, Fin 0.25, NaN]]\<rparr>
          ''NEU'' ''DEN'' (Fin 2.5) (Fin 1.0) = Inr s
        \<and> filter (\<lambda>r. row_value s ''PHID'' r \<noteq> NaN) (rows s) = [[Fin 100, Fin 0.25, Fin 2.5, Fin 0]])"
proof -
  let ?df = "\<lparr>columns = [''DEPT'', ''NEU'', ''DEN''],
          rows = [[Fin 100, Fin 0.25, Fin 2.5], [Fin 101, Fin 0.25, NaN]]\<rparr>"
  let ?v = "\<lparr>columns = [''DEPT'', ''NEU'', ''DEN'', ''PHID''],
              rows = [[Fin 100, Fin 0.25, Fin 2.5, Fin 0]]\<rparr>"
  have wf: "wf_df ?df" by (simp add: wf_df_def)
  have v: "porosity_valid_data ?df ''NEU'' ''DEN'' (Fin 2.5) (Fin 1.0) = Inr ?v"
    using round64_1_5
    by (simp add: porosity_valid_data_def calc_PHID_def porosity_filter_def
      get_column_def set_column_def select_rows_def clip_def fdiv_def is_zero_def is_inf_def
      fne_def fge_def fle_def null_value_def)
  from range_filter_drops_nan_rows[OF wf v] wf v show ?thesis by auto
qed

text \<open>
  A row whose density is NaN passes both sentinel tests, its \<^verbatim>\<open>PHID\<close> is NaN, and
  the range tests drop it: on this table the filter with the range tests retains no row,
  the sentinel tests alone retain one.
\<close>

theorem range_filter_counterexample:
  "porosity_valid_data \<lparr>columns = [''DEPT'', ''NEU'', ''DEN''], rows = [[Fin 100, Fin 0.2, NaN]]\<rparr>
       ''NEU'' ''DEN'' (Fin 2.65) (Fin 1.0)
     = Inr \<lparr>columns = [''DEPT'', ''NEU'', ''DEN'', ''PHID''], rows = []\<rparr>
   \<and> sentinel_valid_data \<lparr>columns = [''DEPT'', ''NEU'', ''DEN''], rows = [[Fin 100, Fin 0.2, NaN]]\<rparr>
       ''NEU'' ''DEN'' (Fin 2.65) (Fin 1.0)
     = Inr \<lparr>columns = [''DEPT'', ''NEU'', ''DEN'', ''PHID''], rows = [[Fin 100, Fin 0.2, NaN, NaN]]\<rparr>"
  by (simp add: porosity_valid_data_def sentinel_valid_data_def calc_PHID_def porosity_filter_def
      crossplot_valid_data_def get_column_def set_column_def select_rows_def clip_def
      fne_def fge_def fle_def null_value_def)

section \<open>Empty and duplicate formation tops\<close>

text \<open>
  Claim C4, as amended. The renderer does not validate the formation tops. With at least
  one valid row and a known depth column it raises exactly when the mapping of tops is
  empty, and what it raises then is the \<^verbatim>\<open>IndexError\<close> of the colour lookup for the first
  row; tops with equal depths are classified like any others.
\<close>

theorem empty_tops_index_error:
  assumes "wf_df df"
    and "crossplot_valid_data df neutron_col density_col = Inr valid_data"
    and "rows valid_data \<noteq> []"
    and "depth_col \<in> set (columns df)"
  shows "(raises (neutron_density_crossplot df neutron_col density_col depth_col (Some tops)) \<longleftrightarrow> tops = [])
       \<and> neutron_density_crossplot df neutron_col density_col depth_col (Some []) = Inl IndexError"
proof -
  from crossplot_valid_data_columns[OF assms(2)] assms(4)
  have cols: "neutron_col \<in> set (columns valid_data)" "density_col \<in> set (columns valid_data)"
    "depth_col \<in> set (columns valid_data)" by auto
  from crossplot_scatter_raises_iff[OF assms(3) cols, of tops]
  have 1: "raises (neutron_density_crossplot df neutron_col density_col depth_col (Some tops)) \<longleftrightarrow> tops = []"
    using assms(2,3) by (auto simp: neutron_density_crossplot_def raises_def)
  from crossplot_scatter_raises_iff[OF assms(3) cols, of "[]"]
  have 2: "neutron_density_crossplot df neutron_col density_col depth_col (Some []) = Inl IndexError"
    using assms(2,3) by (auto simp: neutron_density_crossplot_def)
  from 1 2 show ?thesis by (rule conjI)
qed

theorem empty_tops_index_error_witness:
  "wf_df \<lparr>columns = [''DEPT'', ''NEU'', ''DEN''], rows = [[Fin 150, Fin 0.2, Fin 2.4]]\<rparr>
   \<and> crossplot_valid_data \<lparr>columns = [''DEPT'', ''NEU'', ''DEN''], rows = [[Fin 150, Fin 0.2, Fin 2.4]]\<rparr> ''NEU'' ''DEN''
       = Inr \<lparr>columns = [''DEPT'', ''NEU'', ''DEN''], rows = [[Fin 150, Fin 0.2, Fin 2.4]]\<rparr>
   \<and> neutron_density_crossplot \<lparr>columns = [''DEPT'', ''NEU'', ''DEN''], rows = [[Fin 150, Fin 0.2, Fin 2.4]]\<rparr>
         ''NEU'' ''DEN'' ''DEPT'' (Some []) = Inl IndexError
   \<and> \<not> raises (neutron_density_crossplot \<lparr>columns = [''DEPT'', ''NEU'', ''DEN''], rows = [[Fin 150, Fin 0.2, Fin 2.4]]\<rparr>
         ''NEU'' ''DEN'' ''DEPT'' (Some [(''FM-1'', 100)]))"
proof -
  let ?df = "\<lparr>columns = [''DEPT'', ''NEU'', ''DEN''], rows = [[Fin 150, Fin 0.2, Fin 2.4]]\<rparr>"
  have wf: "wf_df ?df" by (simp add: wf_df_def)
  have v: "crossplot_valid_data ?df ''NEU'' ''DEN'' = Inr ?df"
    by (simp add: crossplot_valid_data_def get_column_def select_rows_def fne_def null_value_def)
  have r: "rows ?df \<noteq> []" by simp
  have c: "''DEPT'' \<in> set (columns ?df)" by simp
  from empty_tops_index_error[OF wf v r c, of "[(''FM-1'', 100)]"] empty_tops_index_error[OF wf v r c, of "[]"] wf v
  show ?thesis by simp
qed

text \<open>Two tops at the same depth: the renderer returns a plot.\<close>

theorem duplicate_depths_not_rejected:
  "\<not> raises (neutron_density_crossplot \<lparr>columns = [''DEPT'', ''NEU'', ''DEN''], rows = [[Fin 150, Fin 0.2, Fin 2.4]]\<rparr>
         ''NEU'' ''DEN'' ''DEPT'' (Some [(''A'', 100), (''B'', 100)]))"
  by (simp add: neutron_density_crossplot_def crossplot_valid_data_def crossplot_scatter_def
      get_column_def select_rows_def fne_def null_value_def sort_tops_eq assign_formation_def
      fge_def fle_def raises_def)

section \<open>Order of the formation tops\<close>

text \<open>
  Claim C10. Two mappings that hold the same name and depth pairs in different orders,
  with pairwise distinct depths, give the same colours, the same labels and the same
  legend for every table: the renderer sorts the tops by depth before it classifies.
\<close>

theorem formation_assignment_permutation_invariant:
  assumes "mset tops1 = mset tops2" and "distinct (map snd tops1)"
  shows "crossplot_scatter valid_data neutron_col density_col depth_col (Some tops1)
           = crossplot_scatter valid_data neutron_col density_col depth_col (Some tops2)
       \<and> neutron_density_crossplot df neutron_col density_col depth_col (Some tops1)
           = neutron_density_crossplot df neutron_col density_col depth_col (Some tops2)"
proof -
  have len: "length tops1 = length tops2" using assms(1) by (rule mset_eq_length)
  have st: "sort_tops tops1 = sort_tops tops2" using assms by (rule sort_tops_permutation)
  have sc: "crossplot_scatter v neutron_col density_col depth_col (Some tops1)
           = crossplot_scatter v neutron_col density_col depth_col (Some tops2)" for v
    unfolding crossplot_scatter_def option.case len st by (rule refl)
  show ?thesis unfolding neutron_density_crossplot_def sc by simp
qed

theorem formation_assignment_permutation_invariant_witness:
  "mset [(''A'', 0 :: real), (''B'', 100)] = mset [(''B'', 100), (''A'', 0)]
   \<and> distinct (map snd [(''A'', 0 :: real), (''B'', 100)])
   \<and> crossplot_scatter \<lparr>columns = [''DEPT'', ''NEU'', ''DEN''], rows = [[Fin 150, Fin 0.2, Fin 2.4], [Fin 50, Fin 0.3, Fin 2.2]]\<rparr>
        ''NEU'' ''DEN'' ''DEPT'' (Some [(''B'', 100), (''A'', 0)])
       = Inr ([Scatter [Fin 0.2, Fin 0.3] [Fin 2.4, Fin 2.2] (ByFormation [1, 0]), Legend [(''A'', 0), (''B'', 1)]],
              [''B'', ''A''])"
proof -
  have m: "mset [(''A'', 0 :: real), (''B'', 100)] = mset [(''B'', 100), (''A'', 0)]" by simp
  have d: "distinct (map snd [(''A'', 0 :: real), (''B'', 100)])" by simp
  have "crossplot_scatter \<lparr>columns = [''DEPT'', ''NEU'', ''DEN''], rows = [[Fin 150, Fin 0.2, Fin 2.4], [Fin 50, Fin 0.3, Fin 2.2]]\<rparr>
        ''NEU'' ''DEN'' ''DEPT'' (Some [(''A'', 0), (''B'', 100)])
       = Inr ([Scatter [Fin 0.2, Fin 0.3] [Fin 2.4, Fin 2.2] (ByFormation [1, 0]), Legend [(''A'', 0), (''B'', 1)]],
              [''B'', ''A''])"
    by (simp add: crossplot_scatter_def get_column_def sort_tops_eq assign_formation_def fge_def fle_def)
  with formation_assignment_permutation_invariant[OF m d] m d show ?thesis by simp
qed

section \<open>Parsing well-formed input\<close>

text \<open>
  Claim C1. Let the text hold a \<^verbatim>\<open>~Curve Information Block\<close> line \<open>cm\<close>, then the lines
  \<open>mid\<close>, then the first \<^verbatim>\<open>~ASCII\<close> line \<open>am\<close>, then the lines \<open>post\<close>. If \<open>mid\<close> declares
  \<open>k\<close> mnemonics and each of the \<open>n\<close> non-blank lines of \<open>post\<close> holds exactly \<open>k\<close> numeric
  tokens, \<open>parse\<close> returns a frame whose column names are the \<open>k\<close> mnemonics in file order,
  repeated names included, and whose \<open>n\<close> rows hold the \<open>k\<close> converted tokens of each line.
\<close>

theorem parse_well_formed:
  assumes "is_curve_marker cm"
    and "\<forall>l\<in>set mid. \<not> is_curve_marker l"
    and "\<forall>l\<in>set (pre @ cm # mid). \<not> is_ascii_marker l"
    and "is_ascii_marker am"
    and "length (curve_names mid) = k"
    and "length (data_lines post) = n"
    and "\<forall>l\<in>set (data_lines post). length (str_split l) = k \<and> (\<forall>t\<in>set (str_split l). to_float t \<noteq> None)"
  shows "\<exists>df. parse to_float (pre @ cm # mid @ am # post) = Inr df
           \<and> columns df = map mnemonic (filter declares_curve mid)
           \<and> length (columns df) = k
           \<and> length (rows df) = n
           \<and> (\<forall>r\<in>set (rows df). length r = k)
           \<and> rows df = table_of to_float post"
proof -
  let ?data = "table_of to_float post"
  have nobad: "first_bad_token to_float post = None"
    using assms(7) by (auto simp: first_bad_token_def find_None_iff)
  have lens: "length r = k" if "r \<in> set ?data" for r
    using that assms(7) by (auto simp: table_of_def)
  have n: "length ?data = n" using assms(6) by (simp add: table_of_def)
  have df: "DataFrame ?data (curve_names mid) = Inr \<lparr>columns = curve_names mid, rows = ?data\<rparr>"
  proof (cases "?data = []")
    case True
    then show ?thesis by (simp add: DataFrame_def)
  next
    case False
    then have w: "data_width ?data = k" using lens by (rule data_width_uniform)
    have "map (pad_row k) ?data = ?data"
      using lens by (simp add: map_idI pad_row_full)
    with False w assms(5) show ?thesis by (simp add: DataFrame_def)
  qed
  have "parse to_float (pre @ cm # mid @ am # post) = Inr \<lparr>columns = curve_names mid, rows = ?data\<rparr>"
    using parse_well_marked[OF assms(1-4), of to_float post] nobad df by simp
  then show ?thesis
    using assms(5) n lens by (simp add: curve_names_map_filter)
qed

theorem parse_well_formed_witness:
  "parse float_fragment [''# header'', ''~Curve Information Block'', ''DEPT.M'', ''# comment'',
                         '' GR  .API  gamma ray'', ''GR.CPS'', ''~ASCII'',
                         ''1 2 3'', [], ''2.5 -999.25 nan'']
     = Inr \<lparr>columns = [''DEPT'', ''GR'', ''GR''],
            rows = [[Fin 1, Fin 2, Fin 3], [Fin 2.5, Fin (- 999.25), NaN]]\<rparr>"
proof -
  let ?mid = "[''DEPT.M'', ''# comment'', '' GR  .API  gamma ray'', ''GR.CPS'']"
  let ?post = "[''1 2 3'', [], ''2.5 -999.25 nan'']"
  have "\<exists>df. parse float_fragment ([''# header''] @ ''~Curve Information Block'' # ?mid @ ''~ASCII'' # ?post) = Inr df
           \<and> columns df = map mnemonic (filter declares_curve ?mid)
           \<and> length (columns df) = 3
           \<and> length (rows df) = 2
           \<and> (\<forall>r\<in>set (rows df). length r = 3)
           \<and> rows df = table_of float_fragment ?post"
    by (rule parse_well_formed)
       (simp_all add: marker_examples data_lines_def strip_def is_space_def
          str_split_def float_fragment_def startswith_def split_dot_first_def)
  then obtain df where
    "parse float_fragment ([''# header''] @ ''~Curve Information Block'' # ?mid @ ''~ASCII'' # ?post) = Inr df"
    "columns df = map mnemonic (filter declares_curve ?mid)"
    "rows df = table_of float_fragment ?post"
    by blast
  moreover have "map mnemonic (filter declares_curve ?mid) = [''DEPT'', ''GR'', ''GR'']"
    by (simp add: mnemonic_def declares_curve_def strip_def is_space_def
          str_split_def startswith_def split_dot_first_def)
  moreover have "table_of float_fragment ?post = [[Fin 1, Fin 2, Fin 3], [Fin 2.5, Fin (- 999.25), NaN]]"
    by (simp add: table_of_def data_lines_def strip_def is_space_def str_split_def float_fragment_def)
  ultimately show ?thesis by (cases df) simp
qed

section \<open>Several curve markers\<close>

text \<open>
  Claim C9. Whatever precedes it, curve markers included, the last
  \<^verbatim>\<open>~Curve Information Block\<close> line before the first \<^verbatim>\<open>~ASCII\<close> line is the start of the
  curve block: the scan records its index and stops at the \<^verbatim>\<open>~ASCII\<close> line, the names
  are read from the lines between the two, and \<open>parse\<close> builds its frame from these names
  and the data lines after the \<^verbatim>\<open>~ASCII\<close> line.
\<close>

theorem last_curve_marker_wins:
  assumes "is_curve_marker cm"
    and "\<forall>l\<in>set mid. \<not> is_curve_marker l"
    and "\<forall>l\<in>set (pre @ cm # mid). \<not> is_ascii_marker l"
    and "is_ascii_marker am"
  shows "find_sections 0 None (pre @ cm # mid @ am # post)
           = (Some (length pre), Some (length pre + length mid + 2))
       \<and> slice (pre @ cm # mid @ am # post) (length pre + 1) (length pre + length mid + 2 - 1) = mid
       \<and> parse to_float (pre @ cm # mid @ am # post) =
           (case first_bad_token to_float post of
              Some t \<Rightarrow> Inl (ValueError (NotAFloat t))
            | None \<Rightarrow> DataFrame (table_of to_float post) (curve_names mid))"
proof -
  have fs: "find_sections 0 None (pre @ cm # mid @ am # post)
           = (Some (length pre), Some (length pre + length mid + 2))"
    using assms by (intro find_sections_last_curve) auto
  from fs slice_between[of pre cm mid am post] parse_well_marked[OF assms, of to_float post]
  show ?thesis by (intro conjI)
qed

theorem last_curve_marker_wins_witness:
  "find_sections 0 None [''~Curve Information Block'', ''OLD.M'', ''~Curve Information Block'',
                         ''DEPT.M'', '' GR  .API  gamma ray'', ''~ASCII'', ''1 2'']
     = (Some 2, Some 6)
   \<and> slice [''~Curve Information Block'', ''OLD.M'', ''~Curve Information Block'',
            ''DEPT.M'', '' GR  .API  gamma ray'', ''~ASCII'', ''1 2''] 3 5
     = [''DEPT.M'', '' GR  .API  gamma ray'']
   \<and> parse float_fragment [''~Curve Information Block'', ''OLD.M'', ''~Curve Information Block'',
                           ''DEPT.M'', '' GR  .API  gamma ray'', ''~ASCII'', ''1 2'']
     = Inr \<lparr>columns = [''DEPT'', ''GR''], rows = [[Fin 1, Fin 2]]\<rparr>"
proof -
  let ?pre = "[''~Curve Information Block'', ''OLD.M'']"
  let ?mid = "[''DEPT.M'', '' GR  .API  gamma ray'']"
  have names: "curve_names ?mid = [''DEPT'', ''GR'']"
    by (simp add: strip_def is_space_def str_split_def startswith_def split_dot_first_def)
  have nobad: "first_bad_token float_fragment [''1 2''] = None"
    by (simp add: first_bad_token_def data_lines_def strip_def is_space_def str_split_def
        float_fragment_def)
  have table: "table_of float_fragment [''1 2''] = [[Fin 1, Fin 2]]"
    by (simp add: table_of_def data_lines_def strip_def is_space_def str_split_def
        float_fragment_def)
  have frame: "DataFrame [[Fin 1, Fin 2]] [''DEPT'', ''GR'']
                 = Inr \<lparr>columns = [''DEPT'', ''GR''], rows = [[Fin 1, Fin 2]]\<rparr>"
    by (simp add: DataFrame_def data_width_def pad_row_def)
  have sl: "slice [''~Curve Information Block'', ''OLD.M'', ''~Curve Information Block'',
            ''DEPT.M'', '' GR  .API  gamma ray'', ''~ASCII'', ''1 2''] 3 5 = ?mid"
    by (simp add: slice_def)
  from last_curve_marker_wins[of "''~Curve Information Block''" ?mid ?pre "''~ASCII''" "[''1 2'']"
      float_fragment]
  have "find_sections 0 None (?pre @ ''~Curve Information Block'' # ?mid @ ''~ASCII'' # [''1 2''])
           = (Some (length ?pre), Some (length ?pre + length ?mid + 2))
       \<and> parse float_fragment (?pre @ ''~Curve Information Block'' # ?mid @ ''~ASCII'' # [''1 2'']) =
           (case first_bad_token float_fragment [''1 2''] of
              Some t \<Rightarrow> Inl (ValueError (NotAFloat t))
            | None \<Rightarrow> DataFrame (table_of float_fragment [''1 2'']) (curve_names ?mid))"
    by (simp add: marker_examples)
  then show ?thesis
    unfolding names nobad table frame using sl by simp
qed

section \<open>Parsing malformed input\<close>

text \<open>
  Claim C2, as amended. \<open>parse\<close> raises \<^verbatim>\<open>TypeError\<close> when the text has no \<^verbatim>\<open>~ASCII\<close>
  line or no \<^verbatim>\<open>~Curve Information Block\<close> line before the first \<^verbatim>\<open>~ASCII\<close> line. With
  both markers in this order it raises \<^verbatim>\<open>ValueError\<close> for the first data token that
  \<^verbatim>\<open>float()\<close> rejects, the error holding the token; otherwise it raises \<^verbatim>\<open>ValueError\<close>
  when there is a data row and the length of the longest row differs from the number of
  curve names, the error holding the two numbers; otherwise it returns the frame, in
  which rows shorter than the longest are filled with NaN.
\<close>

theorem parse_failures:
  "((\<forall>l\<in>set lines. \<not> is_ascii_marker l) \<longrightarrow> parse to_float lines = Inl TypeError)
   \<and> ((\<forall>l\<in>set pre0. \<not> is_ascii_marker l \<and> \<not> is_curve_marker l) \<and> is_ascii_marker am0
        \<longrightarrow> parse to_float (pre0 @ am0 # post0) = Inl TypeError)
   \<and> (is_curve_marker cm \<and> (\<forall>l\<in>set mid. \<not> is_curve_marker l)
        \<and> (\<forall>l\<in>set (pre @ cm # mid). \<not> is_ascii_marker l) \<and> is_ascii_marker am
        \<longrightarrow> parse to_float (pre @ cm # mid @ am # post) =
              (case first_bad_token to_float post of
                 Some t \<Rightarrow> Inl (ValueError (NotAFloat t))
               | None \<Rightarrow>
                   if table_of to_float post \<noteq> []
                      \<and> data_width (table_of to_float post) \<noteq> length (curve_names mid)
                   then Inl (ValueError (ColumnsMismatch (length (curve_names mid))
                                           (data_width (table_of to_float post))))
                   else Inr \<lparr>columns = curve_names mid,
                             rows = map (pad_row (length (curve_names mid))) (table_of to_float post)\<rparr>))"
proof (intro conjI impI)
  assume "\<forall>l\<in>set lines. \<not> is_ascii_marker l"
  then show "parse to_float lines = Inl TypeError" by (rule parse_no_ascii)
next
  assume "(\<forall>l\<in>set pre0. \<not> is_ascii_marker l \<and> \<not> is_curve_marker l) \<and> is_ascii_marker am0"
  then show "parse to_float (pre0 @ am0 # post0) = Inl TypeError"
    by (intro parse_no_curve) auto
next
  assume a: "is_curve_marker cm \<and> (\<forall>l\<in>set mid. \<not> is_curve_marker l)
        \<and> (\<forall>l\<in>set (pre @ cm # mid). \<not> is_ascii_marker l) \<and> is_ascii_marker am"
  then have "parse to_float (pre @ cm # mid @ am # post) =
           (case first_bad_token to_float post of
              Some t \<Rightarrow> Inl (ValueError (NotAFloat t))
            | None \<Rightarrow> DataFrame (table_of to_float post) (curve_names mid))"
    by (intro parse_well_marked) auto
  then show "parse to_float (pre @ cm # mid @ am # post) =
              (case first_bad_token to_float post of
                 Some t \<Rightarrow> Inl (ValueError (NotAFloat t))
               | None \<Rightarrow>
                   if table_of to_float post \<noteq> []
                      \<and> data_width (table_of to_float post) \<noteq> length (curve_names mid)
                   then Inl (ValueError (ColumnsMismatch (length (curve_names mid))
                                           (data_width (table_of to_float post))))
                   else Inr \<lparr>columns = curve_names mid,
                             rows = map (pad_row (length (curve_names mid))) (table_of to_float post)\<rparr>)"
    by (auto simp: DataFrame_def split: option.splits)
qed

theorem parse_failures_witness:
  "parse float_fragment [''~Curve Information Block'', ''A'', ''B'', ''~ASCII'', ''1 abc'']
     = Inl (ValueError (NotAFloat ''abc''))
   \<and> parse float_fragment [''~Curve Information Block'', ''A'', ''B'', ''~ASCII'', ''1 2 3'']
     = Inl (ValueError (ColumnsMismatch 2 3))
   \<and> parse float_fragment [''A'', ''~ASCII'', ''1 2''] = Inl TypeError"
proof -
  have 1: "parse float_fragment ([] @ ''~Curve Information Block'' # [''A'', ''B''] @ ''~ASCII'' # [''1 abc''])
     = Inl (ValueError (NotAFloat ''abc''))"
    using parse_failures[of _ float_fragment _ _ _ "''~Curve Information Block''" "[''A'', ''B'']" "[]" "''~ASCII''" "[''1 abc'']"]
    by (simp add: marker_examples first_bad_token_def data_lines_def strip_def is_space_def
        str_split_def float_fragment_def)
  have 2: "parse float_fragment ([] @ ''~Curve Information Block'' # [''A'', ''B''] @ ''~ASCII'' # [''1 2 3''])
     = Inl (ValueError (ColumnsMismatch 2 3))"
    using parse_failures[of _ float_fragment _ _ _ "''~Curve Information Block''" "[''A'', ''B'']" "[]" "''~ASCII''" "[''1 2 3'']"]
    by (simp add: marker_examples first_bad_token_def data_lines_def strip_def is_space_def
        str_split_def float_fragment_def table_of_def data_width_def startswith_def split_dot_first_def)
  have 3: "parse float_fragment ([''A''] @ ''~ASCII'' # [''1 2'']) = Inl TypeError"
    using parse_failures[of _ float_fragment "[''A'']" "''~ASCII''" "[''1 2'']"]
    by (simp add: marker_examples)
  from 1 2 3 show ?thesis by simp
qed

text \<open>A data row with fewer fields than there are curve names, beside a full row: the
  parse succeeds and the missing field is NaN.\<close>

theorem ragged_rows_accepted:
  "parse float_fragment [''~Curve Information Block'', ''A'', ''B'', ''~ASCII'', ''1 2'', ''3'']
     = Inr \<lparr>columns = [''A'', ''B''], rows = [[Fin 1, Fin 2], [Fin 3, NaN]]\<rparr>"
  by (simp add: parse_def marker_examples slice_def startswith_def strip_def is_space_def
      str_split_def split_dot_first_def float_fragment_def DataFrame_def data_width_def pad_row_def)

end
